theory Spec2Isabelle
  imports Main "HOL-Library.Multiset" "HOL-Library.Word"
begin

section \<open>The replica blob store of \<^verbatim>\<open>pkg/blobserver/replica/replica.go\<close>\<close>

text \<open>
  The package registers a storage type that replicates every blob to a list of
  backends. This theory embeds its operations as HOL functions and proves what the
  specification says about them.

  Conventions of the embedding.
  \<^item> A Go \<^verbatim>\<open>error\<close> is an \<open>error option\<close>; \<open>None\<close> is \<^verbatim>\<open>nil\<close>.
  \<^item> \<^verbatim>\<open>int\<close> and \<^verbatim>\<open>int64\<close> are \<open>int\<close>: the code only counts backends and
    compares byte counts, far below \<open>2^63\<close>.
  \<^item> A backend is a value of the interface \<^verbatim>\<open>blobserver.Storage\<close>: one function per
    method, giving what that backend answers to one call.
  \<^item> Goroutines meet through channels. The order in which their messages arrive is an
    argument of the model (a list of backend indices), and the theorems hold for every
    such order. A receive from a channel that is empty, with no sender left, blocks for
    ever: the model returns \<open>None\<close> there.
  \<^item> What an operation does besides returning is part of its result: the backends
    called by \<^verbatim>\<open>FetchStreaming\<close>; the notifications, the log line and the number
    of results received by \<^verbatim>\<open>ReceiveBlob\<close>; what \<^verbatim>\<open>StatBlobs\<close> sends to its
    destination.
  \<^item> \<^verbatim>\<open>EnumerateBlobs\<close> only calls \<^verbatim>\<open>blobserver.MergedEnumerate\<close>, which is
    not among the sources; it is not embedded.
\<close>

subsection \<open>Data\<close>

text \<open>
  Modelled from the spec: the package \<^verbatim>\<open>blobref\<close> is not among the sources. A Blob
  Reference is an opaque, immutable identifier used as a map key; here it is the string
  that \<^verbatim>\<open>BlobRef.String()\<close> returns. The \<^verbatim>\<open>nil\<close> reference of a zero
  \<^verbatim>\<open>SizedBlobRef\<close> is the empty string.
\<close>

type_synonym blobref = string

type_synonym byte = "8 word"

type_synonym addr = nat

datatype error =
    Err string
  | SizeMismatch int int
  | NeedReplica
  | ConfigError string

datatype request = Request nat

record sizedBlobRef =
  BlobRef :: blobref
  Size :: int

definition zeroSizedBlobRef :: sizedBlobRef where
  "zeroSizedBlobRef = \<lparr>BlobRef = [], Size = 0\<rparr>"

text \<open>\<^verbatim>\<open>type sizedBlobAndError struct { sb blobref.SizedBlobRef; err error }\<close>\<close>

record sizedBlobAndError =
  sb :: sizedBlobRef
  err :: "error option"

text \<open>What a backend's \<^verbatim>\<open>FetchStreaming\<close> returns: \<^verbatim>\<open>(file, size, err)\<close>.\<close>

record fetched =
  fstream :: "byte list option"
  fsize :: int
  ferr :: "error option"

text \<open>
  The interface \<^verbatim>\<open>blobserver.Storage\<close>, as far as the replica store calls it.
  \<open>statOp\<close> gives the Sized Blob References the backend sends on the result channel,
  in the order it sends them, and the error it returns. \<open>receiveOp\<close> gives what
  the backend's \<^verbatim>\<open>ReceiveBlob\<close> returns when its source carries the given bytes,
  and \<open>receiveReads\<close> the number of those bytes it has read from its source when
  it returns. \<open>wrapOp\<close> is \<^verbatim>\<open>WrapContext\<close> for a backend that implements
  \<^verbatim>\<open>blobserver.ContextWrapper\<close>.
\<close>

datatype storage = Storage
  (fetchOp: "blobref \<Rightarrow> fetched")
  (statOp: "blobref list \<Rightarrow> int \<Rightarrow> sizedBlobRef list \<times> error option")
  (receiveOp: "blobref \<Rightarrow> byte list \<Rightarrow> sizedBlobAndError")
  (receiveReads: "blobref \<Rightarrow> byte list \<Rightarrow> nat")
  (removeOp: "blobref list \<Rightarrow> error option")
  (wrapOp: "(request \<Rightarrow> storage) option")

text \<open>
  \<^verbatim>\<open>type replicaStorage struct\<close>. \<open>hub\<close> is the embedded pointer
  \<^verbatim>\<open>*blobserver.SimpleBlobHubPartitionMap\<close>, \<open>ctx\<close> the optional request.
\<close>

record replicaStorage =
  hub :: addr
  replicaPrefixes :: "string list"
  replicas :: "storage list"
  minWritesForSuccess :: int
  ctx :: "request option"

text \<open>
  Replica stores live on the heap: \<^verbatim>\<open>WrapContext\<close> and \<^verbatim>\<open>newFromConfig\<close>
  allocate one and return a pointer to it.
\<close>

record heap =
  stores :: "addr \<rightharpoonup> replicaStorage"
  nextAddr :: addr

definition wfHeap :: "heap \<Rightarrow> bool" where
  "wfHeap h = (\<forall>a. a \<in> dom (stores h) \<longrightarrow> a < nextAddr h)"

subsection \<open>Request contexts\<close>

text \<open>
  Modelled from the spec: \<^verbatim>\<open>blobserver.MaybeWrapContext\<close> is not among the sources.
  The spec says that a request-scoped variant of a storage can be derived from it; the
  source declares the interface \<^verbatim>\<open>blobserver.ContextWrapper\<close> with the method
  \<^verbatim>\<open>WrapContext\<close>. A storage that implements it is wrapped, any other is returned
  as it is, and so is any storage when there is no request.
\<close>

definition MaybeWrapContext :: "storage \<Rightarrow> request option \<Rightarrow> storage" where
  "MaybeWrapContext s req =
     (case req of
        None \<Rightarrow> s
      | Some r \<Rightarrow> (case wrapOp s of None \<Rightarrow> s | Some w \<Rightarrow> w r))"

text \<open>
  \<^verbatim>\<open>func (sto *replicaStorage) WrapContext(req *http.Request) blobserver.Storage\<close>:
  a new object, a copy of the receiver with \<open>ctx\<close> set. \<open>None\<close> is the panic of a
  \<^verbatim>\<open>nil\<close> receiver.
\<close>

definition WrapContext :: "heap \<Rightarrow> addr \<Rightarrow> request option \<Rightarrow> (heap \<times> addr) option" where
  "WrapContext h sto req =
     (case stores h sto of
        None \<Rightarrow> None
      | Some s \<Rightarrow>
          let s2 = nextAddr h
          in Some (h\<lparr>stores := (stores h)(s2 \<mapsto> s\<lparr>ctx := req\<rparr>), nextAddr := Suc s2\<rparr>, s2))"

text \<open>\<^verbatim>\<open>func (sto *replicaStorage) wrappedReplicas() []blobserver.Storage\<close>\<close>

definition wrappedReplicas :: "replicaStorage \<Rightarrow> storage list" where
  "wrappedReplicas sto =
     (if ctx sto = None then replicas sto
      else map (\<lambda>r. MaybeWrapContext r (ctx sto)) (replicas sto))"

subsection \<open>FetchStreaming\<close>

text \<open>
  The loop of \<^verbatim>\<open>FetchStreaming\<close> over \<^verbatim>\<open>sto.replicas\<close>. The named results
  \<^verbatim>\<open>file, size, err\<close> are the third argument; the number counts the backends called
  so far.
\<close>

fun fetchLoop :: "storage list \<Rightarrow> blobref \<Rightarrow> fetched \<Rightarrow> nat \<Rightarrow> fetched \<times> nat" where
  "fetchLoop [] b res n = (res, n)"
| "fetchLoop (replica # rest) b res n =
     (let res' = fetchOp replica b
      in if ferr res' = None then (res', Suc n) else fetchLoop rest b res' (Suc n))"

definition FetchStreaming :: "replicaStorage \<Rightarrow> blobref \<Rightarrow> fetched \<times> nat" where
  "FetchStreaming sto b =
     fetchLoop (replicas sto) b \<lparr>fstream = None, fsize = 0, ferr = None\<rparr> 0"

subsection \<open>StatBlobs\<close>

text \<open>
  The map \<^verbatim>\<open>need\<close>, filled from the requested references:
  \<^verbatim>\<open>for _, br := range blobs { need[br.String()] = br }\<close>.
\<close>

definition needOf :: "blobref list \<Rightarrow> (string \<rightharpoonup> blobref)" where
  "needOf blobs = fold (\<lambda>br need. need(br \<mapsto> br)) blobs Map.empty"

text \<open>
  The goroutine that drains \<^verbatim>\<open>ch\<close>: a Sized Blob Reference whose key is still in
  \<^verbatim>\<open>need\<close> is sent to \<^verbatim>\<open>dest\<close> and its key deleted. The result is what was
  sent to \<^verbatim>\<open>dest\<close>, in order, and the map that is left.
\<close>

fun funnel ::
  "(string \<rightharpoonup> blobref) \<Rightarrow> sizedBlobRef list \<Rightarrow> sizedBlobRef list \<times> (string \<rightharpoonup> blobref)"
where
  "funnel need [] = ([], need)"
| "funnel need (s # ch) =
     (let bstr = BlobRef s
      in if need bstr \<noteq> None
         then (case funnel (need(bstr := None)) ch of (dest, need') \<Rightarrow> (s # dest, need'))
         else funnel need ch)"

text \<open>
  The backends send on \<^verbatim>\<open>ch\<close> concurrently. \<open>interleave sched qs\<close> is the
  sequence that arrives when the backends' own sequences are \<open>qs\<close> and \<open>sched\<close>
  names, step by step, the backend whose next message arrives; a step that names no
  backend with a message left is skipped, and what is left when the schedule ends
  arrives in the configured order. Every backend has returned before \<^verbatim>\<open>ch\<close> is
  closed, so every message arrives.
\<close>

fun interleave :: "nat list \<Rightarrow> 'a list list \<Rightarrow> 'a list" where
  "interleave [] qs = concat qs"
| "interleave (i # sched) qs =
     (if i < length qs
      then (case qs ! i of
              [] \<Rightarrow> interleave sched qs
            | x # q \<Rightarrow> x # interleave sched (qs[i := q]))
      else interleave sched qs)"

text \<open>
  \<^verbatim>\<open>for _ = range sto.replicas { if err := <-errch; err != nil { retErr = err } }\<close>:
  one receive for each of the \<open>n\<close> backends.
\<close>

fun statErrLoop :: "nat \<Rightarrow> error option list \<Rightarrow> error option \<Rightarrow> error option option" where
  "statErrLoop 0 errch retErr = Some retErr"
| "statErrLoop (Suc n) [] retErr = None"
| "statErrLoop (Suc n) (e # errch) retErr =
     statErrLoop n errch (if e \<noteq> None then e else retErr)"

text \<open>What each backend of \<^verbatim>\<open>sto.wrappedReplicas()\<close> answers to the stat call.\<close>

definition statReplies ::
  "replicaStorage \<Rightarrow> blobref list \<Rightarrow> int \<Rightarrow> (sizedBlobRef list \<times> error option) list"
where
  "statReplies sto blobs wait = map (\<lambda>s. statOp s blobs wait) (wrappedReplicas sto)"

text \<open>
  What arrives on \<^verbatim>\<open>ch\<close> when the backends' messages arrive in the order
  \<open>sched\<close>, and what arrives on \<^verbatim>\<open>errch\<close> when the backends return in the
  order \<open>eorder\<close>.
\<close>

definition statStream :: "replicaStorage \<Rightarrow> blobref list \<Rightarrow> int \<Rightarrow> nat list \<Rightarrow> sizedBlobRef list" where
  "statStream sto blobs wait sched = interleave sched (map fst (statReplies sto blobs wait))"

definition statErrors :: "replicaStorage \<Rightarrow> blobref list \<Rightarrow> int \<Rightarrow> nat list \<Rightarrow> error option list" where
  "statErrors sto blobs wait eorder = map (\<lambda>i. snd (statReplies sto blobs wait ! i)) eorder"

text \<open>
  \<^verbatim>\<open>StatBlobs\<close>. The result is what was sent to \<^verbatim>\<open>dest\<close> and the error
  returned: \<^verbatim>\<open>nil\<close> when \<^verbatim>\<open>need\<close> is empty at the end, \<^verbatim>\<open>retErr\<close>
  otherwise.
\<close>

definition StatBlobs ::
  "replicaStorage \<Rightarrow> blobref list \<Rightarrow> int \<Rightarrow> nat list \<Rightarrow> nat list \<Rightarrow>
   (sizedBlobRef list \<times> error option) option"
where
  "StatBlobs sto blobs wait sched eorder =
     (let need = needOf blobs;
          ch = statStream sto blobs wait sched;
          errch = statErrors sto blobs wait eorder
      in case statErrLoop (length (replicas sto)) errch None of
           None \<Rightarrow> None
         | Some retErr \<Rightarrow>
             (case funnel need ch of
                (dest, need') \<Rightarrow> Some (dest, if dom need' = {} then None else retErr)))"

subsection \<open>ReceiveBlob\<close>

text \<open>
  The client's stream: the bytes it yields, and the error that ends it (\<open>None\<close> is
  the end of the stream).
\<close>

record source =
  bytes :: "byte list"
  readErr :: "error option"

text \<open>
  \<^verbatim>\<open>uploadToReplica\<close> for the backend at index \<open>idx\<close> of
  \<^verbatim>\<open>sto.wrappedReplicas()\<close>: the backend is wrapped once more and receives the
  bytes of its pipe. What it sends on \<^verbatim>\<open>upResult\<close> is the result.
\<close>

definition uploadToReplica :: "replicaStorage \<Rightarrow> blobref \<Rightarrow> source \<Rightarrow> nat \<Rightarrow> sizedBlobAndError" where
  "uploadToReplica sto b src idx =
     receiveOp (MaybeWrapContext (wrappedReplicas sto ! idx) (ctx sto)) b (bytes src)"

text \<open>
  The pipes are unbuffered: a write to a pipe ends when its reader has read every byte
  written. \<^verbatim>\<open>uploadToReplica\<close> reads the rest of its pipe only
  \<^verbatim>\<open>if err != nil\<close>. So the worker at index \<open>idx\<close> leaves bytes unread in its
  pipe when its backend returns \<^verbatim>\<open>nil\<close> before it has read all the bytes the
  source yields.
\<close>

definition stalls :: "replicaStorage \<Rightarrow> blobref \<Rightarrow> source \<Rightarrow> nat \<Rightarrow> bool" where
  "stalls sto b src idx =
     (err (uploadToReplica sto b src idx) = None \<and>
      receiveReads (MaybeWrapContext (wrappedReplicas sto ! idx) (ctx sto)) b (bytes src)
        < length (bytes src))"

text \<open>
  \<^verbatim>\<open>io.Copy(io.MultiWriter(writer...), source)\<close>: it returns the number of bytes
  copied and the error that ended the source, unless a worker leaves bytes unread in
  its pipe; then the write to that pipe blocks for ever and the copy does not return.
\<close>

definition ioCopy :: "replicaStorage \<Rightarrow> blobref \<Rightarrow> source \<Rightarrow> (int \<times> error option) option" where
  "ioCopy sto b src =
     (if list_ex (stalls sto b src) [0..<length (replicas sto)] then None
      else Some (int (length (bytes src)), readErr src))"

text \<open>The local variables of the collecting loop; \<open>nRecv\<close> counts the receives.\<close>

record locals =
  nSuccess :: int
  nFailures :: int
  lerr :: "error option"
  nRecv :: nat

text \<open>
  \<^verbatim>\<open>for _ = range sto.replicas { res := <-upResult; switch { ... } }\<close>. The result
  is \<open>Some (Some sb, _)\<close> when the loop returns \<^verbatim>\<open>res.sb, nil\<close> from inside,
  \<open>Some (None, _)\<close> when it runs to its end.
\<close>

fun collectLoop ::
  "nat \<Rightarrow> sizedBlobAndError list \<Rightarrow> int \<Rightarrow> int \<Rightarrow> locals \<Rightarrow> (sizedBlobRef option \<times> locals) option"
where
  "collectLoop 0 upResult sz minWrites st = Some (None, st)"
| "collectLoop (Suc n) [] sz minWrites st = None"
| "collectLoop (Suc n) (res # upResult) sz minWrites st =
     (if err res = None \<and> Size (sb res) = sz
      then (if nSuccess st + 1 = minWrites
            then Some (Some (sb res), st\<lparr>nSuccess := nSuccess st + 1, nRecv := Suc (nRecv st)\<rparr>)
            else collectLoop n upResult sz minWrites
                   (st\<lparr>nSuccess := nSuccess st + 1, nRecv := Suc (nRecv st)\<rparr>))
      else if err res = None
      then collectLoop n upResult sz minWrites
             (st\<lparr>nFailures := nFailures st + 1,
                 lerr := Some (SizeMismatch (Size (sb res)) sz),
                 nRecv := Suc (nRecv st)\<rparr>)
      else collectLoop n upResult sz minWrites
             (st\<lparr>nFailures := nFailures st + 1, lerr := err res, nRecv := Suc (nRecv st)\<rparr>))"

text \<open>
  What \<^verbatim>\<open>ReceiveBlob\<close> returns and does: the two results, the notifications sent
  to the blob hub (the hub and the reference), the line logged (successes, failures,
  last error), and the number of results received from \<^verbatim>\<open>upResult\<close>.
\<close>

record received =
  ret_sb :: sizedBlobRef
  ret_err :: "error option"
  notified :: "(addr \<times> blobref) list"
  logged :: "(int \<times> int \<times> error option) list"
  nReceived :: nat

text \<open>
  \<^verbatim>\<open>ReceiveBlob\<close>. \<open>order\<close> is the order in which the backends' results arrive
  on \<^verbatim>\<open>upResult\<close>. The result is \<open>None\<close> when the call does not return.
\<close>

definition ReceiveBlob ::
  "replicaStorage \<Rightarrow> blobref \<Rightarrow> source \<Rightarrow> nat list \<Rightarrow> received option"
where
  "ReceiveBlob sto b src order =
     (let nReplicas = length (replicas sto) in
      case ioCopy sto b src of
        None \<Rightarrow> None
      | Some (sz, Some e) \<Rightarrow>
          Some \<lparr>ret_sb = zeroSizedBlobRef, ret_err = Some e, notified = [], logged = [],
                nReceived = 0\<rparr>
      | Some (sz, None) \<Rightarrow>
          (case collectLoop nReplicas (map (uploadToReplica sto b src) order) sz
                  (minWritesForSuccess sto)
                  \<lparr>nSuccess = 0, nFailures = 0, lerr = None, nRecv = 0\<rparr> of
             None \<Rightarrow> None
           | Some (Some rsb, st) \<Rightarrow>
               Some \<lparr>ret_sb = rsb, ret_err = None, notified = [(hub sto, b)], logged = [],
                     nReceived = nRecv st\<rparr>
           | Some (None, st) \<Rightarrow>
               Some \<lparr>ret_sb = zeroSizedBlobRef, ret_err = lerr st, notified = [],
                     logged = (if nFailures st > 0
                               then [(nSuccess st, nFailures st, lerr st)] else []),
                     nReceived = nRecv st\<rparr>))"

subsection \<open>RemoveBlobs\<close>

text \<open>
  \<^verbatim>\<open>for _ = range errch { if err := <-errch; err != nil { ... } else { nSuccess++ } }\<close>.
  The \<^verbatim>\<open>range\<close> clause receives a value and drops it, the body receives the next
  one. \<^verbatim>\<open>errch\<close> is never closed: when the values sent are used up, the receive
  that comes next blocks for ever. The result is \<^verbatim>\<open>(reterr, nSuccess)\<close> at the end
  of the loop.
\<close>

fun removeLoop :: "error option list \<Rightarrow> error option \<Rightarrow> int \<Rightarrow> (error option \<times> int) option" where
  "removeLoop [] reterr nSucc = None"
| "removeLoop [dropped] reterr nSucc = None"
| "removeLoop (dropped # e # errch) reterr nSucc =
     (if e \<noteq> None then removeLoop errch e nSucc else removeLoop errch reterr (nSucc + 1))"

text \<open>
  \<^verbatim>\<open>RemoveBlobs\<close>. \<open>order\<close> is the order in which the backends' errors arrive on
  \<^verbatim>\<open>errch\<close>. \<open>Some e\<close> is the error returned.
\<close>

definition RemoveBlobs :: "replicaStorage \<Rightarrow> blobref list \<Rightarrow> nat list \<Rightarrow> error option option" where
  "RemoveBlobs sto blobs order =
     (let errch = map (\<lambda>i. removeOp (MaybeWrapContext (replicas sto ! i) (ctx sto)) blobs) order
      in case removeLoop errch None 0 of
           None \<Rightarrow> None
         | Some (reterr, nSucc) \<Rightarrow> Some (if nSucc > 0 then None else reterr))"

subsection \<open>Construction\<close>

text \<open>
  Modelled from the spec: the package \<^verbatim>\<open>jsonconfig\<close> is not among the sources. The
  configuration names an ordered list of backend locators and an optional
  minimum-success count, and unrecognised keys are a construction error.
  \<^verbatim>\<open>RequiredList\<close> returns the list (none when the key is missing, which
  \<^verbatim>\<open>Validate\<close> then reports), \<^verbatim>\<open>OptionalInt\<close> the value or the default.
\<close>

record config =
  cfgBackends :: "string list option"
  cfgMinWrites :: "int option"
  cfgUnknownKeys :: "string list"

definition RequiredList :: "config \<Rightarrow> string list" where
  "RequiredList c = (case cfgBackends c of None \<Rightarrow> [] | Some l \<Rightarrow> l)"

definition OptionalInt :: "config \<Rightarrow> int \<Rightarrow> int" where
  "OptionalInt c def = (case cfgMinWrites c of None \<Rightarrow> def | Some v \<Rightarrow> v)"

definition Validate :: "config \<Rightarrow> error option" where
  "Validate c =
     (if cfgBackends c = None then Some (ConfigError ''backends'')
      else if cfgUnknownKeys c \<noteq> [] then Some (ConfigError (hd (cfgUnknownKeys c)))
      else None)"

text \<open>
  \<^verbatim>\<open>for i, prefix := range sto.replicaPrefixes { ... sto.replicas[i] = replicaSto }\<close>:
  the loader resolves each prefix in turn, and the first failure ends construction.
\<close>

fun loadReplicas :: "(string \<Rightarrow> error + storage) \<Rightarrow> string list \<Rightarrow> error + storage list" where
  "loadReplicas ld [] = Inr []"
| "loadReplicas ld (prefix # rest) =
     (case ld prefix of
        Inl e \<Rightarrow> Inl e
      | Inr replicaSto \<Rightarrow>
          (case loadReplicas ld rest of Inl e \<Rightarrow> Inl e | Inr rs \<Rightarrow> Inr (replicaSto # rs)))"

text \<open>
  \<^verbatim>\<open>newFromConfig\<close>. The blob hub partition map and the store are allocated at the
  next two addresses of the heap.
\<close>

definition newFromConfig ::
  "heap \<Rightarrow> (string \<Rightarrow> error + storage) \<Rightarrow> config \<Rightarrow> error + (heap \<times> addr)"
where
  "newFromConfig h ld c =
     (let hubp = nextAddr h;
          p = Suc (nextAddr h);
          prefixes = RequiredList c;
          nReplicas = int (length prefixes);
          minWrites = OptionalInt c nReplicas
      in case Validate c of
           Some e \<Rightarrow> Inl e
         | None \<Rightarrow>
             if nReplicas = 0 then Inl NeedReplica
             else (case loadReplicas ld prefixes of
                     Inl e \<Rightarrow> Inl e
                   | Inr rs \<Rightarrow>
                       Inr (h\<lparr>stores := (stores h)(p \<mapsto>
                                \<lparr>hub = hubp, replicaPrefixes = prefixes, replicas = rs,
                                 minWritesForSuccess =
                                   (if minWrites = 0 then nReplicas else minWrites),
                                 ctx = None\<rparr>),
                              nextAddr := Suc p\<rparr>, p)))"

subsection \<open>Notions used in the statements\<close>

text \<open>
  A result on \<^verbatim>\<open>upResult\<close> counts as a success when the backend returned no error
  and reported the size copied from the source; otherwise the error recorded for it is
  the backend's error, or the size mismatch.
\<close>

definition accepted :: "int \<Rightarrow> sizedBlobAndError \<Rightarrow> bool" where
  "accepted sz res = (err res = None \<and> Size (sb res) = sz)"

definition failureErr :: "int \<Rightarrow> sizedBlobAndError \<Rightarrow> error option" where
  "failureErr sz res =
     (if err res = None then Some (SizeMismatch (Size (sb res)) sz) else err res)"

text \<open>The last error recorded for a sequence of results, \<open>e\<close> when there is none.\<close>

fun lastErr :: "int \<Rightarrow> sizedBlobAndError list \<Rightarrow> error option \<Rightarrow> error option" where
  "lastErr sz [] e = e"
| "lastErr sz (res # rest) e =
     lastErr sz rest (if accepted sz res then e else failureErr sz res)"

text \<open>The number of backends that accept the blob with the source's byte count.\<close>

definition nAccepting :: "replicaStorage \<Rightarrow> blobref \<Rightarrow> source \<Rightarrow> nat" where
  "nAccepting sto b src =
     length (filter (\<lambda>i. accepted (int (length (bytes src))) (uploadToReplica sto b src i))
                    [0..<length (replicas sto)])"

text \<open>The references that some backend reports to a stat call.\<close>

definition reportedRefs :: "replicaStorage \<Rightarrow> blobref list \<Rightarrow> int \<Rightarrow> blobref set" where
  "reportedRefs sto blobs wait = BlobRef ` set (concat (map fst (statReplies sto blobs wait)))"

text \<open>The last error of a sequence of returned errors, \<^verbatim>\<open>nil\<close> when there is none.\<close>

definition lastRecorded :: "error option list \<Rightarrow> error option" where
  "lastRecorded es = (case filter (\<lambda>e. e \<noteq> None) es of [] \<Rightarrow> None | e # fs \<Rightarrow> last (e # fs))"

subsection \<open>Example backends and stores\<close>

text \<open>
  A backend that holds every blob, three bytes long, and accepts every upload after
  reading all of it.
\<close>

definition goodBackend :: storage where
  "goodBackend = Storage
     (\<lambda>b. \<lparr>fstream = Some [1, 2, 3], fsize = 3, ferr = None\<rparr>)
     (\<lambda>blobs wait. (map (\<lambda>b. \<lparr>BlobRef = b, Size = 3\<rparr>) blobs, None))
     (\<lambda>b data. \<lparr>sb = \<lparr>BlobRef = b, Size = int (length data)\<rparr>, err = None\<rparr>)
     (\<lambda>b data. length data)
     (\<lambda>blobs. None)
     None"

text \<open>A backend that is down: every call fails, an upload before a byte is read.\<close>

definition downBackend :: storage where
  "downBackend = Storage
     (\<lambda>b. \<lparr>fstream = None, fsize = 0, ferr = Some (Err ''down'')\<rparr>)
     (\<lambda>blobs wait. ([], Some (Err ''down'')))
     (\<lambda>b data. \<lparr>sb = zeroSizedBlobRef, err = Some (Err ''down'')\<rparr>)
     (\<lambda>b data. 0)
     (\<lambda>blobs. Some (Err ''down''))
     None"

text \<open>
  A backend that holds nothing and stores nothing: a fetch fails, a stat finds no blob
  and returns no error, an upload is read to its end and acknowledged with size 0.
\<close>

definition emptyBackend :: storage where
  "emptyBackend = Storage
     (\<lambda>b. \<lparr>fstream = None, fsize = 0, ferr = Some (Err ''not found'')\<rparr>)
     (\<lambda>blobs wait. ([], None))
     (\<lambda>b data. \<lparr>sb = \<lparr>BlobRef = b, Size = 0\<rparr>, err = None\<rparr>)
     (\<lambda>b data. length data)
     (\<lambda>blobs. None)
     None"

text \<open>
  A backend that acknowledges every upload under a reference of its own, and one that
  acknowledges an upload, with size 0, without reading a byte of it.
\<close>

definition renamingBackend :: storage where
  "renamingBackend = Storage
     (\<lambda>b. \<lparr>fstream = None, fsize = 0, ferr = Some (Err ''not found'')\<rparr>)
     (\<lambda>blobs wait. ([], None))
     (\<lambda>b data. \<lparr>sb = \<lparr>BlobRef = ''sha1-other'', Size = int (length data)\<rparr>, err = None\<rparr>)
     (\<lambda>b data. length data)
     (\<lambda>blobs. None)
     None"

definition hastyBackend :: storage where
  "hastyBackend = Storage
     (\<lambda>b. \<lparr>fstream = None, fsize = 0, ferr = Some (Err ''not found'')\<rparr>)
     (\<lambda>blobs wait. ([], None))
     (\<lambda>b data. \<lparr>sb = \<lparr>BlobRef = b, Size = 0\<rparr>, err = None\<rparr>)
     (\<lambda>b data. 0)
     (\<lambda>blobs. None)
     None"

text \<open>A store over given backends with a given quorum, a source of three bytes, a source
  that fails after one byte, and heaps.\<close>

definition exampleStore :: "storage list \<Rightarrow> int \<Rightarrow> replicaStorage" where
  "exampleStore rs q =
     \<lparr>hub = 0, replicaPrefixes = map (\<lambda>i. ''/b'') rs, replicas = rs,
      minWritesForSuccess = q, ctx = None\<rparr>"

definition exampleSource :: source where
  "exampleSource = \<lparr>bytes = [1, 2, 3], readErr = None\<rparr>"

definition brokenSource :: source where
  "brokenSource = \<lparr>bytes = [1], readErr = Some (Err ''client gone'')\<rparr>"

definition emptyHeap :: heap where
  "emptyHeap = \<lparr>stores = Map.empty, nextAddr = 0\<rparr>"

definition exampleHeap :: heap where
  "exampleHeap =
     \<lparr>stores = [1 \<mapsto> exampleStore [downBackend, goodBackend] 2], nextAddr = 2\<rparr>"

definition exampleLoader :: "string \<Rightarrow> error + storage" where
  "exampleLoader prefix =
     (if prefix = ''/good/'' then Inr goodBackend
      else if prefix = ''/down/'' then Inr downBackend
      else Inl (Err ''no such prefix''))"

text \<open>
  A backend that reports, to a stat call, a blob nobody asked for and then every
  requested blob with size 4.
\<close>

definition mirrorBackend :: storage where
  "mirrorBackend = Storage
     (\<lambda>b. \<lparr>fstream = Some [1, 2, 3, 4], fsize = 4, ferr = None\<rparr>)
     (\<lambda>blobs wait. (\<lparr>BlobRef = ''sha1-extra'', Size = 9\<rparr> #
                     map (\<lambda>b. \<lparr>BlobRef = b, Size = 4\<rparr>) blobs, None))
     (\<lambda>b data. \<lparr>sb = \<lparr>BlobRef = b, Size = int (length data)\<rparr>, err = None\<rparr>)
     (\<lambda>b data. length data)
     (\<lambda>blobs. None)
     None"

text \<open>
  A backend that works only for a request: it implements \<^verbatim>\<open>ContextWrapper\<close>,
  and fails every call made without a request.
\<close>

definition ctxBackend :: storage where
  "ctxBackend = Storage
     (\<lambda>b. \<lparr>fstream = None, fsize = 0, ferr = Some (Err ''no request'')\<rparr>)
     (\<lambda>blobs wait. ([], Some (Err ''no request'')))
     (\<lambda>b data. \<lparr>sb = zeroSizedBlobRef, err = Some (Err ''no request'')\<rparr>)
     (\<lambda>b data. 0)
     (\<lambda>blobs. Some (Err ''no request''))
     (Some (\<lambda>r. goodBackend))"

text \<open>
  Configurations: one with a key that is not known, one with a prefix that the loader
  does not resolve, two backends with a zero minimum,
  no backend at all, and one backend with a minimum of two.
\<close>

definition unknownKeyConfig :: config where
  "unknownKeyConfig = \<lparr>cfgBackends = Some [''/good/''], cfgMinWrites = None,
                        cfgUnknownKeys = [''bogus'']\<rparr>"

definition unresolvedConfig :: config where
  "unresolvedConfig = \<lparr>cfgBackends = Some [''/good/'', ''/nowhere/''], cfgMinWrites = None,
                        cfgUnknownKeys = []\<rparr>"

definition goodConfig :: config where
  "goodConfig = \<lparr>cfgBackends = Some [''/good/'', ''/down/''], cfgMinWrites = Some 0,
                  cfgUnknownKeys = []\<rparr>"

definition noBackendsConfig :: config where
  "noBackendsConfig = \<lparr>cfgBackends = Some [], cfgMinWrites = None, cfgUnknownKeys = []\<rparr>"

definition overConfig :: config where
  "overConfig = \<lparr>cfgBackends = Some [''/good/''], cfgMinWrites = Some 2,
                  cfgUnknownKeys = []\<rparr>"

text \<open>
  Three backends of which two accept an upload, the first of them under a reference of
  its own, and two backends that hold every blob.
\<close>

definition quorumStore :: replicaStorage where
  "quorumStore = exampleStore [renamingBackend, emptyBackend, goodBackend] 2"

definition statStore :: replicaStorage where
  "statStore = exampleStore [goodBackend, mirrorBackend] 2"

section \<open>Properties\<close>

subsection \<open>FetchStreaming\<close>

lemma fetchLoop_first_success:
  "k < length rs \<Longrightarrow> ferr (fetchOp (rs ! k) b) = None \<Longrightarrow>
   (\<And>j. j < k \<Longrightarrow> ferr (fetchOp (rs ! j) b) \<noteq> None) \<Longrightarrow>
   fetchLoop rs b res n = (fetchOp (rs ! k) b, n + k + 1)"
proof (induction rs arbitrary: k res n)
  case Nil
  then show ?case by simp
next
  case (Cons r rs)
  show ?case
  proof (cases k)
    case 0
    with Cons.prems(2) show ?thesis by simp
  next
    case (Suc k')
    have r: "ferr (fetchOp r b) \<noteq> None"
      using Cons.prems(3) [of 0] Suc by simp
    have "fetchLoop rs b (fetchOp r b) (Suc n) = (fetchOp (rs ! k') b, Suc n + k' + 1)"
    proof (rule Cons.IH)
      show "k' < length rs" using Cons.prems(1) Suc by simp
      show "ferr (fetchOp (rs ! k') b) = None" using Cons.prems(2) Suc by simp
      show "ferr (fetchOp (rs ! j) b) \<noteq> None" if "j < k'" for j
        using Cons.prems(3) [of "Suc j"] that Suc by simp
    qed
    with r Suc show ?thesis by (simp add: Let_def)
  qed
qed

lemma fetchLoop_all_fail:
  "rs \<noteq> [] \<Longrightarrow> (\<And>j. j < length rs \<Longrightarrow> ferr (fetchOp (rs ! j) b) \<noteq> None) \<Longrightarrow>
   fetchLoop rs b res n = (fetchOp (last rs) b, n + length rs)"
proof (induction rs arbitrary: res n)
  case Nil
  then show ?case by simp
next
  case (Cons r rs)
  have r: "ferr (fetchOp r b) \<noteq> None"
    using Cons.prems(2) [of 0] by simp
  show ?case
  proof (cases "rs = []")
    case True
    with r show ?thesis by (simp add: Let_def)
  next
    case False
    have "fetchLoop rs b (fetchOp r b) (Suc n) = (fetchOp (last rs) b, Suc n + length rs)"
    proof (rule Cons.IH [OF False])
      show "ferr (fetchOp (rs ! j) b) \<noteq> None" if "j < length rs" for j
        using Cons.prems(2) [of "Suc j"] that by simp
    qed
    with r False show ?thesis by (simp add: Let_def)
  qed
qed

text \<open>
  Claim C7. \<^verbatim>\<open>FetchStreaming\<close> tries the backends one at a time in the configured
  order. When backend \<open>k\<close> is the first whose fetch succeeds, the result is that
  backend's stream and size, and exactly the backends \<open>0, \<dots>, k\<close> have been called:
  no later one is consulted. When there is a backend and every backend fails, the
  result is the last backend's error, after every backend has been called.
\<close>

theorem FetchStreaming_first_success:
  "(\<forall>k. k < length (replicas sto) \<and> ferr (fetchOp (replicas sto ! k) b) = None \<and>
        (\<forall>j<k. ferr (fetchOp (replicas sto ! j) b) \<noteq> None) \<longrightarrow>
        FetchStreaming sto b = (fetchOp (replicas sto ! k) b, Suc k)) \<and>
   (replicas sto \<noteq> [] \<and>
    (\<forall>j<length (replicas sto). ferr (fetchOp (replicas sto ! j) b) \<noteq> None) \<longrightarrow>
    FetchStreaming sto b = (fetchOp (last (replicas sto)) b, length (replicas sto)))"
  unfolding FetchStreaming_def
  using fetchLoop_first_success [of _ "replicas sto" b _ 0]
    fetchLoop_all_fail [of "replicas sto" b _ 0]
  by simp

theorem FetchStreaming_first_success_witness:
  "FetchStreaming (exampleStore [downBackend, goodBackend, downBackend] 3) ''sha1-a'' =
     (\<lparr>fstream = Some [1, 2, 3], fsize = 3, ferr = None\<rparr>, 2) \<and>
   FetchStreaming (exampleStore [emptyBackend, downBackend] 2) ''sha1-a'' =
     (\<lparr>fstream = None, fsize = 0, ferr = Some (Err ''down'')\<rparr>, 2)"
  using FetchStreaming_first_success
          [of "exampleStore [downBackend, goodBackend, downBackend] 3" "''sha1-a''"]
        FetchStreaming_first_success
          [of "exampleStore [emptyBackend, downBackend] 2" "''sha1-a''"]
  by (simp add: exampleStore_def downBackend_def goodBackend_def emptyBackend_def
        FetchStreaming_def)

text \<open>
  Claim C10. \<^verbatim>\<open>FetchStreaming\<close> does not depend on the request context: on the
  store that \<^verbatim>\<open>WrapContext\<close> returns it gives the same result as on the original,
  for every store, request and blob reference. The wrapped store has the request as its
  context and the same backend list, and \<^verbatim>\<open>FetchStreaming\<close> reads that list only.
\<close>

theorem FetchStreaming_ignores_context:
  "stores h p = Some s \<Longrightarrow>
   \<exists>h' p2 s2. WrapContext h p req = Some (h', p2) \<and> stores h' p2 = Some s2 \<and>
     ctx s2 = req \<and> replicas s2 = replicas s \<and>
     FetchStreaming s2 b = FetchStreaming s b"
  by (simp add: WrapContext_def FetchStreaming_def Let_def)

theorem FetchStreaming_ignores_context_witness:
  "stores exampleHeap 1 = Some (exampleStore [downBackend, goodBackend] 2) \<and>
   (\<exists>h' p2 s2. WrapContext exampleHeap 1 (Some (Request 7)) = Some (h', p2) \<and>
      stores h' p2 = Some s2 \<and> ctx s2 = Some (Request 7) \<and>
      replicas s2 = replicas (exampleStore [downBackend, goodBackend] 2) \<and>
      FetchStreaming s2 ''sha1-a'' =
        FetchStreaming (exampleStore [downBackend, goodBackend] 2) ''sha1-a'') \<and>
   FetchStreaming (exampleStore [downBackend, goodBackend] 2) ''sha1-a'' =
     (\<lparr>fstream = Some [1, 2, 3], fsize = 3, ferr = None\<rparr>, 2)"
proof -
  have at: "stores exampleHeap 1 = Some (exampleStore [downBackend, goodBackend] 2)"
    by (simp add: exampleHeap_def)
  have fs: "FetchStreaming (exampleStore [downBackend, goodBackend] 2) ''sha1-a'' =
      (\<lparr>fstream = Some [1, 2, 3], fsize = 3, ferr = None\<rparr>, 2)"
    by (simp add: exampleStore_def FetchStreaming_def downBackend_def goodBackend_def)
  show ?thesis
    using FetchStreaming_ignores_context [OF at, of "Some (Request 7)" "''sha1-a''"]
    by (intro conjI at fs)
qed

text \<open>
  The other operations do apply the request: with a backend that works only for a
  request, \<^verbatim>\<open>StatBlobs\<close> fails on the plain store and succeeds on the store with a
  request, while \<^verbatim>\<open>FetchStreaming\<close> on the store with a request still calls the
  plain backend.
\<close>

lemma StatBlobs_uses_context:
  "StatBlobs (exampleStore [ctxBackend] 1) [''sha1-a''] 0 [] [0] =
     Some ([], Some (Err ''no request'')) \<and>
   StatBlobs ((exampleStore [ctxBackend] 1)\<lparr>ctx := Some (Request 7)\<rparr>) [''sha1-a''] 0 [] [0] =
     Some ([\<lparr>BlobRef = ''sha1-a'', Size = 3\<rparr>], None) \<and>
   FetchStreaming ((exampleStore [ctxBackend] 1)\<lparr>ctx := Some (Request 7)\<rparr>) ''sha1-a'' =
     (\<lparr>fstream = None, fsize = 0, ferr = Some (Err ''no request'')\<rparr>, 1)"
  by (simp add: StatBlobs_def Let_def needOf_def statStream_def statErrors_def
        statReplies_def exampleStore_def wrappedReplicas_def MaybeWrapContext_def
        ctxBackend_def goodBackend_def FetchStreaming_def)

subsection \<open>WrapContext\<close>

text \<open>
  Claim C9. On a heap whose objects all lie below the next address, \<^verbatim>\<open>WrapContext\<close>
  on a store returns a new object, at an address that was free. The new store is the
  original with the request as its context: the same backend list, the same prefix list,
  the same \<^verbatim>\<open>minWritesForSuccess\<close> and the same blob hub partition map. The original
  store, and every other object, is as it was.
\<close>

theorem WrapContext_frame:
  assumes "wfHeap h" and "stores h p = Some s"
  shows "\<exists>h' p2 s2. WrapContext h p req = Some (h', p2) \<and>
     p2 \<noteq> p \<and> stores h p2 = None \<and> stores h' p2 = Some s2 \<and>
     s2 = s\<lparr>ctx := req\<rparr> \<and> ctx s2 = req \<and>
     replicas s2 = replicas s \<and> replicaPrefixes s2 = replicaPrefixes s \<and>
     minWritesForSuccess s2 = minWritesForSuccess s \<and> hub s2 = hub s \<and>
     stores h' p = Some s \<and> (\<forall>a. a \<noteq> p2 \<longrightarrow> stores h' a = stores h a) \<and>
     wfHeap h'"
proof -
  have lt: "p < nextAddr h"
    using assms by (auto simp: wfHeap_def)
  have fresh: "stores h (nextAddr h) = None"
    using assms(1) by (auto simp: wfHeap_def dom_def)
  have wf: "wfHeap (h\<lparr>stores := (stores h)(nextAddr h \<mapsto> s\<lparr>ctx := req\<rparr>),
                      nextAddr := Suc (nextAddr h)\<rparr>)"
    using assms(1) by (auto simp: wfHeap_def less_Suc_eq)
  show ?thesis
    using lt fresh wf assms(2) by (simp add: WrapContext_def Let_def)
qed

theorem WrapContext_frame_witness:
  "wfHeap exampleHeap \<and>
   stores exampleHeap 1 = Some (exampleStore [downBackend, goodBackend] 2) \<and>
   (\<exists>h'. WrapContext exampleHeap 1 (Some (Request 7)) = Some (h', 2) \<and>
      stores h' 2 = Some ((exampleStore [downBackend, goodBackend] 2)
                            \<lparr>ctx := Some (Request 7)\<rparr>) \<and>
      stores h' 1 = Some (exampleStore [downBackend, goodBackend] 2))"
proof -
  have wf: "wfHeap exampleHeap"
    by (simp add: wfHeap_def exampleHeap_def)
  have at: "stores exampleHeap 1 = Some (exampleStore [downBackend, goodBackend] 2)"
    by (simp add: exampleHeap_def)
  show ?thesis
    using wf at WrapContext_frame [OF wf at, of "Some (Request 7)"]
    by (simp add: WrapContext_def exampleHeap_def)
qed

subsection \<open>ReceiveBlob\<close>

text \<open>The copy returns when no worker leaves bytes unread in its pipe.\<close>

lemma ioCopy_returns:
  "(\<forall>i<length (replicas sto). \<not> stalls sto b src i) \<Longrightarrow>
   ioCopy sto b src = Some (int (length (bytes src)), readErr src)"
  by (simp add: ioCopy_def list_ex_iff)

lemma ioCopy_result:
  "ioCopy sto b src = Some (n, e) \<Longrightarrow> n = int (length (bytes src)) \<and> e = readErr src"
  by (simp add: ioCopy_def split: if_splits)

text \<open>
  When a backend acknowledges an upload that it has not read, the copy blocks and
  \<^verbatim>\<open>ReceiveBlob\<close> does not return.
\<close>

lemma ReceiveBlob_blocks_on_unread_pipe:
  "ReceiveBlob (exampleStore [hastyBackend] 1) ''sha1-a'' exampleSource [0] = None"
  by (simp add: ReceiveBlob_def ioCopy_def stalls_def uploadToReplica_def
        wrappedReplicas_def MaybeWrapContext_def exampleStore_def exampleSource_def
        hastyBackend_def)

text \<open>
  Claim C8. When the copy of the client's stream to the pipes returns an error,
  \<^verbatim>\<open>ReceiveBlob\<close> returns that error at once, with the zero Sized Blob Reference:
  whatever the backends and the quorum are, no result is received from a backend, no
  line is logged and the blob hub is not notified. The copy returns the error that ends
  the client's stream whenever no worker leaves bytes unread in its pipe.
\<close>

theorem ReceiveBlob_copy_error:
  "(\<forall>n. ioCopy sto b src = Some (n, Some e) \<longrightarrow>
      ReceiveBlob sto b src order =
        Some \<lparr>ret_sb = zeroSizedBlobRef, ret_err = Some e, notified = [], logged = [],
              nReceived = 0\<rparr>) \<and>
   (readErr src = Some e \<and> (\<forall>i<length (replicas sto). \<not> stalls sto b src i) \<longrightarrow>
      ReceiveBlob sto b src order =
        Some \<lparr>ret_sb = zeroSizedBlobRef, ret_err = Some e, notified = [], logged = [],
              nReceived = 0\<rparr>)"
proof (intro conjI allI impI)
  fix n
  assume "ioCopy sto b src = Some (n, Some e)"
  then show "ReceiveBlob sto b src order =
        Some \<lparr>ret_sb = zeroSizedBlobRef, ret_err = Some e, notified = [], logged = [],
              nReceived = 0\<rparr>"
    by (simp add: ReceiveBlob_def)
next
  assume a: "readErr src = Some e \<and> (\<forall>i<length (replicas sto). \<not> stalls sto b src i)"
  then have "ioCopy sto b src = Some (int (length (bytes src)), Some e)"
    using ioCopy_returns [of sto b src] by simp
  then show "ReceiveBlob sto b src order =
        Some \<lparr>ret_sb = zeroSizedBlobRef, ret_err = Some e, notified = [], logged = [],
              nReceived = 0\<rparr>"
    by (simp add: ReceiveBlob_def)
qed

theorem ReceiveBlob_copy_error_witness:
  "ioCopy (exampleStore [goodBackend, goodBackend] 1) ''sha1-a'' brokenSource =
     Some (1, Some (Err ''client gone'')) \<and>
   readErr brokenSource = Some (Err ''client gone'') \<and>
   \<not> stalls (exampleStore [goodBackend, goodBackend] 1) ''sha1-a'' brokenSource 0 \<and>
   \<not> stalls (exampleStore [goodBackend, goodBackend] 1) ''sha1-a'' brokenSource 1 \<and>
   ReceiveBlob (exampleStore [goodBackend, goodBackend] 1) ''sha1-a'' brokenSource [1, 0] =
     Some \<lparr>ret_sb = \<lparr>BlobRef = [], Size = 0\<rparr>, ret_err = Some (Err ''client gone''),
           notified = [], logged = [], nReceived = 0\<rparr>"
proof -
  have s0: "\<not> stalls (exampleStore [goodBackend, goodBackend] 1) ''sha1-a'' brokenSource 0"
    and s1: "\<not> stalls (exampleStore [goodBackend, goodBackend] 1) ''sha1-a'' brokenSource 1"
    by (simp_all add: stalls_def uploadToReplica_def wrappedReplicas_def
          MaybeWrapContext_def exampleStore_def brokenSource_def goodBackend_def)
  have c: "ioCopy (exampleStore [goodBackend, goodBackend] 1) ''sha1-a'' brokenSource =
     Some (1, Some (Err ''client gone''))"
    by (simp add: ioCopy_def stalls_def uploadToReplica_def wrappedReplicas_def
          MaybeWrapContext_def exampleStore_def brokenSource_def goodBackend_def upt_rec)
  have e: "readErr brokenSource = Some (Err ''client gone'')"
    by (simp add: brokenSource_def)
  have r: "ReceiveBlob (exampleStore [goodBackend, goodBackend] 1) ''sha1-a'' brokenSource
       [1, 0] =
     Some \<lparr>ret_sb = \<lparr>BlobRef = [], Size = 0\<rparr>, ret_err = Some (Err ''client gone''),
           notified = [], logged = [], nReceived = 0\<rparr>"
    using c ReceiveBlob_copy_error
              [of "exampleStore [goodBackend, goodBackend] 1" "''sha1-a''" brokenSource
                  "Err ''client gone''" "[1, 0]"]
    by (simp add: zeroSizedBlobRef_def)
  show ?thesis
    by (intro conjI c e s0 s1 r)
qed

text \<open>The collecting loop, when the quorum is not reached and when it is.\<close>

lemma collectLoop_exhausted:
  "length xs = n \<Longrightarrow>
   \<not> (nSuccess st < q \<and> q \<le> nSuccess st + int (length (filter (accepted sz) xs))) \<Longrightarrow>
   collectLoop n xs sz q st =
     Some (None, \<lparr>nSuccess = nSuccess st + int (length (filter (accepted sz) xs)),
                  nFailures = nFailures st + int (length (filter (\<lambda>x. \<not> accepted sz x) xs)),
                  lerr = lastErr sz xs (lerr st),
                  nRecv = nRecv st + n\<rparr>)"
proof (induction xs arbitrary: n st)
  case Nil
  then show ?case by simp
next
  case (Cons x xs)
  then obtain m where n: "n = Suc m" and m: "length xs = m"
    by (cases n) auto
  show ?case
  proof (cases "accepted sz x")
    case True
    let ?st = "st\<lparr>nSuccess := nSuccess st + 1, nRecv := Suc (nRecv st)\<rparr>"
    have ne: "nSuccess st + 1 \<noteq> q"
      using Cons.prems(2) True by auto
    have "\<not> (nSuccess ?st < q \<and> q \<le> nSuccess ?st + int (length (filter (accepted sz) xs)))"
      using Cons.prems(2) True by auto
    from Cons.IH [OF m this] ne True show ?thesis
      by (simp add: n accepted_def)
  next
    case False
    let ?st = "st\<lparr>nFailures := nFailures st + 1, lerr := failureErr sz x,
                   nRecv := Suc (nRecv st)\<rparr>"
    have "\<not> (nSuccess ?st < q \<and> q \<le> nSuccess ?st + int (length (filter (accepted sz) xs)))"
      using Cons.prems(2) False by auto
    from Cons.IH [OF m this] False show ?thesis
      by (auto simp: n accepted_def failureErr_def)
  qed
qed

text \<open>
  When the quorum is reached, the loop returns at the result that completes it: that
  result is a success, it is the last of the results received, these hold as many
  successes as the quorum still needed, and its Sized Blob Reference is returned.
\<close>

lemma collectLoop_quorum:
  "length xs = n \<Longrightarrow> nSuccess st < q \<Longrightarrow>
   q \<le> nSuccess st + int (length (filter (accepted sz) xs)) \<Longrightarrow>
   \<exists>st' m. collectLoop n xs sz q st = Some (Some (sb (xs ! m)), st') \<and>
     m < length xs \<and> accepted sz (xs ! m) \<and>
     int (length (filter (accepted sz) (take (Suc m) xs))) = q - nSuccess st \<and>
     nRecv st' = nRecv st + Suc m"
proof (induction xs arbitrary: n st)
  case Nil
  then show ?case by simp
next
  case (Cons x xs)
  then obtain k where n: "n = Suc k" and k: "length xs = k"
    by (cases n) auto
  show ?case
  proof (cases "accepted sz x")
    case True
    then have ax: "err x = None \<and> Size (sb x) = sz"
      by (simp add: accepted_def)
    let ?st = "st\<lparr>nSuccess := nSuccess st + 1, nRecv := Suc (nRecv st)\<rparr>"
    show ?thesis
    proof (cases "nSuccess st + 1 = q")
      case eq: True
      have "collectLoop n (x # xs) sz q st = Some (Some (sb ((x # xs) ! 0)), ?st)"
        using ax eq by (simp add: n)
      moreover have "int (length (filter (accepted sz) (take (Suc 0) (x # xs)))) = q - nSuccess st"
        using True eq by simp
      ultimately show ?thesis
        using True by (intro exI [of _ ?st] exI [of _ 0]) simp
    next
      case ne: False
      have lt: "nSuccess ?st < q" using Cons.prems(2) ne by simp
      have le: "q \<le> nSuccess ?st + int (length (filter (accepted sz) xs))"
        using Cons.prems(3) True by simp
      from Cons.IH [OF k lt le] obtain st' m where
        run: "collectLoop k xs sz q ?st = Some (Some (sb (xs ! m)), st')"
        and m: "m < length xs" and am: "accepted sz (xs ! m)"
        and cnt: "int (length (filter (accepted sz) (take (Suc m) xs))) = q - nSuccess ?st"
        and rc: "nRecv st' = nRecv ?st + Suc m"
        by blast
      have "collectLoop n (x # xs) sz q st = Some (Some (sb ((x # xs) ! Suc m)), st')"
        using ax ne run by (simp add: n)
      moreover have "int (length (filter (accepted sz) (take (Suc (Suc m)) (x # xs)))) =
          q - nSuccess st"
        using True cnt by simp
      moreover have "nRecv st' = nRecv st + Suc (Suc m)"
        using rc by simp
      ultimately show ?thesis
        using m am by (intro exI [of _ st'] exI [of _ "Suc m"]) simp
    qed
  next
    case False
    let ?st = "st\<lparr>nFailures := nFailures st + 1, lerr := failureErr sz x,
                   nRecv := Suc (nRecv st)\<rparr>"
    have lt: "nSuccess ?st < q" using Cons.prems(2) by simp
    have le: "q \<le> nSuccess ?st + int (length (filter (accepted sz) xs))"
      using Cons.prems(3) False by simp
    from Cons.IH [OF k lt le] obtain st' m where
      run: "collectLoop k xs sz q ?st = Some (Some (sb (xs ! m)), st')"
      and m: "m < length xs" and am: "accepted sz (xs ! m)"
      and cnt: "int (length (filter (accepted sz) (take (Suc m) xs))) = q - nSuccess ?st"
      and rc: "nRecv st' = nRecv ?st + Suc m"
      by blast
    have "collectLoop n (x # xs) sz q st = Some (Some (sb ((x # xs) ! Suc m)), st')"
      using False run by (auto simp: n accepted_def failureErr_def)
    moreover have "int (length (filter (accepted sz) (take (Suc (Suc m)) (x # xs)))) =
        q - nSuccess st"
      using False cnt by simp
    moreover have "nRecv st' = nRecv st + Suc (Suc m)"
      using rc by simp
    ultimately show ?thesis
      using m am by (intro exI [of _ st'] exI [of _ "Suc m"]) simp
  qed
qed

lemma lastErr_keeps: "e \<noteq> None \<Longrightarrow> lastErr sz xs e \<noteq> None"
  by (induction xs arbitrary: e) (auto simp: failureErr_def accepted_def)

lemma lastErr_recorded: "\<exists>x\<in>set xs. \<not> accepted sz x \<Longrightarrow> lastErr sz xs e \<noteq> None"
proof (induction xs arbitrary: e)
  case Nil
  then show ?case by simp
next
  case (Cons x xs)
  show ?case
  proof (cases "accepted sz x")
    case True
    with Cons show ?thesis by auto
  next
    case False
    then have "failureErr sz x \<noteq> None"
      by (auto simp: failureErr_def accepted_def)
    from lastErr_keeps [OF this] False show ?thesis by simp
  qed
qed

lemma count_arrivals:
  assumes "mset order = mset [0..<n]"
  shows "length (filter P (map f order)) = length (filter (\<lambda>i. P (f i)) [0..<n])"
proof -
  have "length (filter P (map f order)) = length (filter (\<lambda>i. P (f i)) order)"
    by (simp add: filter_map comp_def)
  also have "\<dots> = size (filter_mset (\<lambda>i. P (f i)) (mset order))"
    by (simp only: mset_filter [symmetric] size_mset)
  also have "\<dots> = size (filter_mset (\<lambda>i. P (f i)) (mset [0..<n]))"
    by (simp only: assms)
  also have "\<dots> = length (filter (\<lambda>i. P (f i)) [0..<n])"
    by (simp only: mset_filter [symmetric] size_mset)
  finally show ?thesis .
qed

lemma some_not_accepted:
  "length (filter P xs) < length xs \<Longrightarrow> \<exists>x\<in>set xs. \<not> P x"
  by (induction xs) (auto split: if_splits)

lemma ReceiveBlob_unfold:
  "readErr src = None \<Longrightarrow> \<forall>i<length (replicas sto). \<not> stalls sto b src i \<Longrightarrow>
   ReceiveBlob sto b src order =
     (case collectLoop (length (replicas sto)) (map (uploadToReplica sto b src) order)
             (int (length (bytes src))) (minWritesForSuccess sto)
             \<lparr>nSuccess = 0, nFailures = 0, lerr = None, nRecv = 0\<rparr> of
        None \<Rightarrow> None
      | Some (Some rsb, st) \<Rightarrow>
          Some \<lparr>ret_sb = rsb, ret_err = None, notified = [(hub sto, b)], logged = [],
                nReceived = nRecv st\<rparr>
      | Some (None, st) \<Rightarrow>
          Some \<lparr>ret_sb = zeroSizedBlobRef, ret_err = lerr st, notified = [],
                logged = (if nFailures st > 0
                          then [(nSuccess st, nFailures st, lerr st)] else []),
                nReceived = nRecv st\<rparr>)"
  by (simp add: ReceiveBlob_def ioCopy_returns)

text \<open>
  When every backend has reported and the quorum is not reached, \<^verbatim>\<open>ReceiveBlob\<close>
  returns the last error recorded, which is \<^verbatim>\<open>nil\<close> when none was.
\<close>

lemma ReceiveBlob_exhausted:
  assumes copy: "readErr src = None"
      and drained: "\<forall>i<length (replicas sto). \<not> stalls sto b src i"
      and len: "length order = length (replicas sto)"
      and no: "\<not> (0 < minWritesForSuccess sto \<and>
                minWritesForSuccess sto \<le>
                  int (length (filter (accepted (int (length (bytes src))))
                                 (map (uploadToReplica sto b src) order))))"
  shows "\<exists>l. ReceiveBlob sto b src order =
     Some \<lparr>ret_sb = zeroSizedBlobRef,
           ret_err = lastErr (int (length (bytes src))) (map (uploadToReplica sto b src) order) None,
           notified = [], logged = l, nReceived = length (replicas sto)\<rparr>"
proof -
  define st0 where "st0 = \<lparr>nSuccess = 0, nFailures = 0, lerr = None, nRecv = 0\<rparr>"
  define xs where "xs = map (uploadToReplica sto b src) order"
  define sz where "sz = int (length (bytes src))"
  have st0s: "nSuccess st0 = 0" "nFailures st0 = 0" "lerr st0 = None" "nRecv st0 = 0"
    by (simp_all add: st0_def)
  have l: "length xs = length (replicas sto)"
    using len by (simp add: xs_def)
  have n: "\<not> (nSuccess st0 < minWritesForSuccess sto \<and>
        minWritesForSuccess sto \<le> nSuccess st0 + int (length (filter (accepted sz) xs)))"
    using no by (simp add: st0s xs_def sz_def)
  have "collectLoop (length (replicas sto)) xs sz (minWritesForSuccess sto) st0 =
        Some (None, \<lparr>nSuccess = int (length (filter (accepted sz) xs)),
                     nFailures = int (length (filter (\<lambda>x. \<not> accepted sz x) xs)),
                     lerr = lastErr sz xs None,
                     nRecv = length (replicas sto)\<rparr>)"
    using collectLoop_exhausted [OF l n] by (simp add: st0s)
  then show ?thesis
    unfolding xs_def sz_def st0_def by (simp add: ReceiveBlob_unfold [OF copy drained])
qed

lemma quorum_iff:
  assumes q1: "1 \<le> minWritesForSuccess sto"
      and qN: "minWritesForSuccess sto \<le> int (length (replicas sto))"
      and perm: "mset order = mset [0..<length (replicas sto)]"
      and copy: "readErr src = None"
      and drained: "\<forall>i<length (replicas sto). \<not> stalls sto b src i"
  shows "\<exists>r. ReceiveBlob sto b src order = Some r \<and>
     (ret_err r = None \<longleftrightarrow> minWritesForSuccess sto \<le> int (nAccepting sto b src)) \<and>
     (ret_err r = None \<longrightarrow>
        0 < nReceived r \<and> nReceived r \<le> length (replicas sto) \<and>
        order ! (nReceived r - 1) < length (replicas sto) \<and>
        accepted (int (length (bytes src)))
          (uploadToReplica sto b src (order ! (nReceived r - 1))) \<and>
        int (length (filter (\<lambda>i. accepted (int (length (bytes src)))
                                    (uploadToReplica sto b src i))
                            (take (nReceived r) order))) = minWritesForSuccess sto \<and>
        ret_sb r = sb (uploadToReplica sto b src (order ! (nReceived r - 1))) \<and>
        notified r = [(hub sto, b)]) \<and>
     (ret_err r \<noteq> None \<longrightarrow>
        ret_sb r = zeroSizedBlobRef \<and> notified r = [] \<and>
        nReceived r = length (replicas sto) \<and>
        ret_err r = lastErr (int (length (bytes src)))
                      (map (uploadToReplica sto b src) order) None)"
proof -
  define sz where "sz = int (length (bytes src))"
  define up where "up = uploadToReplica sto b src"
  define xs where "xs = map up order"
  define q where "q = minWritesForSuccess sto"
  define st0 where "st0 = \<lparr>nSuccess = 0, nFailures = 0, lerr = None, nRecv = 0\<rparr>"
  have st0s: "nSuccess st0 = 0" "nFailures st0 = 0" "lerr st0 = None" "nRecv st0 = 0"
    by (simp_all add: st0_def)
  have lo: "length order = length (replicas sto)"
    using mset_eq_length [OF perm] by simp
  have len: "length xs = length (replicas sto)"
    using lo by (simp add: xs_def)
  have cnt: "length (filter (accepted sz) xs) = nAccepting sto b src"
    unfolding xs_def nAccepting_def sz_def up_def by (rule count_arrivals [OF perm])
  have idx: "set order = {0..<length (replicas sto)}"
    using mset_eq_setD [OF perm] by simp
  have unf: "ReceiveBlob sto b src order =
      (case collectLoop (length (replicas sto)) xs sz q st0 of
         None \<Rightarrow> None
       | Some (Some rsb, st) \<Rightarrow>
           Some \<lparr>ret_sb = rsb, ret_err = None, notified = [(hub sto, b)], logged = [],
                 nReceived = nRecv st\<rparr>
       | Some (None, st) \<Rightarrow>
           Some \<lparr>ret_sb = zeroSizedBlobRef, ret_err = lerr st, notified = [],
                 logged = (if nFailures st > 0
                           then [(nSuccess st, nFailures st, lerr st)] else []),
                 nReceived = nRecv st\<rparr>)"
    unfolding xs_def up_def sz_def q_def st0_def by (rule ReceiveBlob_unfold [OF copy drained])
  show ?thesis
  proof (cases "q \<le> int (nAccepting sto b src)")
    case True
    have "nSuccess st0 < q" "q \<le> nSuccess st0 + int (length (filter (accepted sz) xs))"
      using True q1 cnt by (simp_all add: q_def st0s)
    from collectLoop_quorum [OF len this] obtain st' m where
      run: "collectLoop (length (replicas sto)) xs sz q st0 = Some (Some (sb (xs ! m)), st')"
      and m: "m < length xs" and am: "accepted sz (xs ! m)"
      and c: "int (length (filter (accepted sz) (take (Suc m) xs))) = q"
      and rc: "nRecv st' = Suc m"
      by (auto simp: st0s)
    have mo: "m < length order"
      using m by (simp add: xs_def)
    have xm: "xs ! m = up (order ! m)"
      using mo by (simp add: xs_def)
    have "order ! m \<in> set order"
      using mo by (rule nth_mem)
    then have om: "order ! m < length (replicas sto)"
      using idx by simp
    have "filter (accepted sz) (take (Suc m) xs) =
          map up (filter (\<lambda>i. accepted sz (up i)) (take (Suc m) order))"
      by (simp add: xs_def take_map filter_map comp_def)
    then have c': "int (length (filter (\<lambda>i. accepted sz (up i)) (take (Suc m) order))) = q"
      using c by simp
    have r: "ReceiveBlob sto b src order =
        Some \<lparr>ret_sb = sb (up (order ! m)), ret_err = None, notified = [(hub sto, b)],
              logged = [], nReceived = Suc m\<rparr>"
      using run rc xm by (simp add: unf)
    have sm: "Suc m \<le> length (replicas sto)"
      using mo lo by simp
    from r True om am c' sm show ?thesis
      unfolding xm by (simp add: q_def sz_def up_def)
  next
    case False
    then have no: "\<not> (nSuccess st0 < q \<and> q \<le> nSuccess st0 + int (length (filter (accepted sz) xs)))"
      using cnt by (simp add: st0s)
    have "length (filter (accepted sz) xs) < length xs"
      using False qN cnt len by (simp add: q_def)
    then have "\<exists>x\<in>set xs. \<not> accepted sz x"
      by (rule some_not_accepted)
    then have ne: "lastErr sz xs None \<noteq> None"
      by (rule lastErr_recorded)
    have cl: "collectLoop (length (replicas sto)) xs sz q st0 =
        Some (None, \<lparr>nSuccess = int (length (filter (accepted sz) xs)),
                     nFailures = int (length (filter (\<lambda>x. \<not> accepted sz x) xs)),
                     lerr = lastErr sz xs None,
                     nRecv = length (replicas sto)\<rparr>)"
      using collectLoop_exhausted [OF len no] by (simp add: st0s)
    have r: "ReceiveBlob sto b src order =
        Some \<lparr>ret_sb = zeroSizedBlobRef, ret_err = lastErr sz xs None, notified = [],
              logged = (if 0 < int (length (filter (\<lambda>x. \<not> accepted sz x) xs))
                        then [(int (length (filter (accepted sz) xs)),
                               int (length (filter (\<lambda>x. \<not> accepted sz x) xs)),
                               lastErr sz xs None)] else []),
              nReceived = length (replicas sto)\<rparr>"
      by (simp add: unf cl)
    with ne False show ?thesis
      by (auto simp: q_def xs_def sz_def up_def)
  qed
qed

text \<open>
  Claim C1, amended. Let the quorum \<open>q\<close> satisfy \<open>1 \<le> q \<le> N\<close>, let every
  backend report once, in any order, let the source be read to its end, and let no
  worker leave bytes unread in its pipe. Then \<^verbatim>\<open>ReceiveBlob\<close> returns, and it returns
  \<^verbatim>\<open>nil\<close> as its error if and only if at least \<open>q\<close> backends accept the blob and
  report the source's byte count; a backend that reports another size is not counted.
  On success it has received results up to the one that completes the quorum: that
  result is an acceptance, the results received hold exactly \<open>q\<close> acceptances, and
  the Sized Blob Reference of that result is returned. Its size is the source's byte
  count; its reference is the one that backend reported, which is the requested
  reference when the accepting backends report the reference they were given. The blob
  hub is notified once. Otherwise every result has been received, the error is the last
  one recorded and is not \<^verbatim>\<open>nil\<close>, the result is the zero Sized Blob Reference and
  the hub is not notified.
\<close>

theorem ReceiveBlob_quorum:
  assumes q1: "1 \<le> minWritesForSuccess sto"
      and qN: "minWritesForSuccess sto \<le> int (length (replicas sto))"
      and perm: "mset order = mset [0..<length (replicas sto)]"
      and copy: "readErr src = None"
      and drained: "\<forall>i<length (replicas sto). \<not> stalls sto b src i"
  shows "\<exists>r. ReceiveBlob sto b src order = Some r \<and>
     (ret_err r = None \<longleftrightarrow> minWritesForSuccess sto \<le> int (nAccepting sto b src)) \<and>
     (ret_err r = None \<longrightarrow>
        0 < nReceived r \<and> nReceived r \<le> length (replicas sto) \<and>
        order ! (nReceived r - 1) < length (replicas sto) \<and>
        accepted (int (length (bytes src)))
          (uploadToReplica sto b src (order ! (nReceived r - 1))) \<and>
        int (length (filter (\<lambda>i. accepted (int (length (bytes src)))
                                    (uploadToReplica sto b src i))
                            (take (nReceived r) order))) = minWritesForSuccess sto \<and>
        ret_sb r = sb (uploadToReplica sto b src (order ! (nReceived r - 1))) \<and>
        notified r = [(hub sto, b)]) \<and>
     (ret_err r \<noteq> None \<longrightarrow>
        ret_sb r = zeroSizedBlobRef \<and> notified r = [] \<and>
        nReceived r = length (replicas sto) \<and>
        ret_err r = lastErr (int (length (bytes src)))
                      (map (uploadToReplica sto b src) order) None) \<and>
     (ret_err r = None \<longrightarrow> Size (ret_sb r) = int (length (bytes src))) \<and>
     ((\<forall>i<length (replicas sto).
          accepted (int (length (bytes src))) (uploadToReplica sto b src i) \<longrightarrow>
          BlobRef (sb (uploadToReplica sto b src i)) = b) \<longrightarrow>
      ret_err r = None \<longrightarrow>
      ret_sb r = \<lparr>BlobRef = b, Size = int (length (bytes src))\<rparr>)"
proof -
  from quorum_iff [OF q1 qN perm copy drained] obtain r where
    all: "ReceiveBlob sto b src order = Some r \<and>
     (ret_err r = None \<longleftrightarrow> minWritesForSuccess sto \<le> int (nAccepting sto b src)) \<and>
     (ret_err r = None \<longrightarrow>
        0 < nReceived r \<and> nReceived r \<le> length (replicas sto) \<and>
        order ! (nReceived r - 1) < length (replicas sto) \<and>
        accepted (int (length (bytes src)))
          (uploadToReplica sto b src (order ! (nReceived r - 1))) \<and>
        int (length (filter (\<lambda>i. accepted (int (length (bytes src)))
                                    (uploadToReplica sto b src i))
                            (take (nReceived r) order))) = minWritesForSuccess sto \<and>
        ret_sb r = sb (uploadToReplica sto b src (order ! (nReceived r - 1))) \<and>
        notified r = [(hub sto, b)]) \<and>
     (ret_err r \<noteq> None \<longrightarrow>
        ret_sb r = zeroSizedBlobRef \<and> notified r = [] \<and>
        nReceived r = length (replicas sto) \<and>
        ret_err r = lastErr (int (length (bytes src)))
                      (map (uploadToReplica sto b src) order) None)" ..
  note r = all [THEN conjunct1]
  note iff = all [THEN conjunct2, THEN conjunct1]
  note ok = all [THEN conjunct2, THEN conjunct2, THEN conjunct1]
  note ko = all [THEN conjunct2, THEN conjunct2, THEN conjunct2]
  define i where "i = order ! (nReceived r - 1)"
  have sz: "Size (ret_sb r) = int (length (bytes src))" if s: "ret_err r = None"
  proof -
    from ok s have "accepted (int (length (bytes src))) (uploadToReplica sto b src i)"
      and "ret_sb r = sb (uploadToReplica sto b src i)"
      by (simp_all add: i_def)
    then show ?thesis by (simp add: accepted_def)
  qed
  have echo: "ret_sb r = \<lparr>BlobRef = b, Size = int (length (bytes src))\<rparr>"
    if e: "\<forall>i<length (replicas sto).
          accepted (int (length (bytes src))) (uploadToReplica sto b src i) \<longrightarrow>
          BlobRef (sb (uploadToReplica sto b src i)) = b"
      and s: "ret_err r = None"
  proof -
    from ok s have "i < length (replicas sto)"
      and "accepted (int (length (bytes src))) (uploadToReplica sto b src i)"
      and "ret_sb r = sb (uploadToReplica sto b src i)"
      by (simp_all add: i_def)
    with e have "BlobRef (ret_sb r) = b" by simp
    moreover have "Size (ret_sb r) = int (length (bytes src))" by (rule sz [OF s])
    ultimately show ?thesis by simp
  qed
  have e1: "ret_err r = None \<longrightarrow> Size (ret_sb r) = int (length (bytes src))"
    by (intro impI) (rule sz)
  have e2: "(\<forall>i<length (replicas sto).
          accepted (int (length (bytes src))) (uploadToReplica sto b src i) \<longrightarrow>
          BlobRef (sb (uploadToReplica sto b src i)) = b) \<longrightarrow>
      ret_err r = None \<longrightarrow>
      ret_sb r = \<lparr>BlobRef = b, Size = int (length (bytes src))\<rparr>"
    by (intro impI) (rule echo)
  show ?thesis
    by (rule exI [of _ r]) (intro conjI r iff ok ko e1 e2)
qed

theorem ReceiveBlob_quorum_witness:
  "1 \<le> minWritesForSuccess quorumStore \<and>
   minWritesForSuccess quorumStore \<le> int (length (replicas quorumStore)) \<and>
   mset [1, 0, 2] = mset [0..<length (replicas quorumStore)] \<and>
   readErr exampleSource = None \<and>
   \<not> stalls quorumStore ''sha1-a'' exampleSource 0 \<and>
   \<not> stalls quorumStore ''sha1-a'' exampleSource 1 \<and>
   \<not> stalls quorumStore ''sha1-a'' exampleSource 2 \<and>
   nAccepting quorumStore ''sha1-a'' exampleSource = 2 \<and>
   ReceiveBlob quorumStore ''sha1-a'' exampleSource [1, 0, 2] =
     Some \<lparr>ret_sb = \<lparr>BlobRef = ''sha1-a'', Size = 3\<rparr>, ret_err = None,
           notified = [(0, ''sha1-a'')], logged = [], nReceived = 3\<rparr>"
proof -
  have q1: "1 \<le> minWritesForSuccess quorumStore"
    by (simp add: quorumStore_def exampleStore_def)
  have qN: "minWritesForSuccess quorumStore \<le> int (length (replicas quorumStore))"
    by (simp add: quorumStore_def exampleStore_def)
  have perm: "mset [1, 0, 2] = mset [0..<length (replicas quorumStore)]"
    by (simp add: quorumStore_def exampleStore_def upt_rec)
  have copy: "readErr exampleSource = None"
    by (simp add: exampleSource_def)
  have s0: "\<not> stalls quorumStore ''sha1-a'' exampleSource 0"
    and s1: "\<not> stalls quorumStore ''sha1-a'' exampleSource 1"
    and s2: "\<not> stalls quorumStore ''sha1-a'' exampleSource 2"
    by (simp_all add: stalls_def uploadToReplica_def wrappedReplicas_def
          MaybeWrapContext_def quorumStore_def exampleStore_def exampleSource_def
          goodBackend_def emptyBackend_def renamingBackend_def)
  have drained: "\<forall>i<length (replicas quorumStore). \<not> stalls quorumStore ''sha1-a'' exampleSource i"
  proof (intro allI impI)
    fix i
    assume "i < length (replicas quorumStore)"
    then have "i = 0 \<or> i = 1 \<or> i = 2"
      by (auto simp: quorumStore_def exampleStore_def)
    with s0 s1 s2 show "\<not> stalls quorumStore ''sha1-a'' exampleSource i"
      by blast
  qed
  have n: "nAccepting quorumStore ''sha1-a'' exampleSource = 2"
    by (simp add: nAccepting_def quorumStore_def exampleStore_def exampleSource_def
          uploadToReplica_def wrappedReplicas_def MaybeWrapContext_def accepted_def
          goodBackend_def emptyBackend_def renamingBackend_def upt_rec)
  have r: "ReceiveBlob quorumStore ''sha1-a'' exampleSource [1, 0, 2] =
     Some \<lparr>ret_sb = \<lparr>BlobRef = ''sha1-a'', Size = 3\<rparr>, ret_err = None,
           notified = [(0, ''sha1-a'')], logged = [], nReceived = 3\<rparr>"
    unfolding ReceiveBlob_unfold [OF copy drained]
    by (simp add: quorumStore_def exampleStore_def
          exampleSource_def uploadToReplica_def wrappedReplicas_def MaybeWrapContext_def
          goodBackend_def emptyBackend_def renamingBackend_def numeral_3_eq_3)
  show ?thesis
    using ReceiveBlob_quorum [OF q1 qN perm copy drained]
    by (intro conjI q1 qN perm copy s0 s1 s2 n r)
qed

text \<open>
  Claim C1 as stated fails where it says that the requested reference is returned: a
  backend that acknowledges the upload under another reference, with the right size,
  completes the quorum, and its Sized Blob Reference is the result.
\<close>

theorem ReceiveBlob_returns_backend_reference:
  "ReceiveBlob (exampleStore [renamingBackend] 1) ''sha1-a'' exampleSource [0] =
     Some \<lparr>ret_sb = \<lparr>BlobRef = ''sha1-other'', Size = 3\<rparr>, ret_err = None,
           notified = [(0, ''sha1-a'')], logged = [], nReceived = 1\<rparr>"
  by (simp add: ReceiveBlob_def ioCopy_def stalls_def exampleStore_def exampleSource_def
        uploadToReplica_def wrappedReplicas_def MaybeWrapContext_def renamingBackend_def)

text \<open>
  Claim C4 says that \<^verbatim>\<open>ReceiveBlob\<close> never returns a \<^verbatim>\<open>nil\<close> error when every
  backend has reported and the quorum is not reached. With one backend, which accepts
  the blob, and \<^verbatim>\<open>minWritesForSuccess\<close> 2, it returns the zero Sized Blob Reference
  and a \<^verbatim>\<open>nil\<close> error.
\<close>

theorem ReceiveBlob_nil_without_quorum:
  "ReceiveBlob (exampleStore [goodBackend] 2) ''sha1-a'' exampleSource [0] =
     Some \<lparr>ret_sb = \<lparr>BlobRef = [], Size = 0\<rparr>, ret_err = None, notified = [],
           logged = [], nReceived = 1\<rparr>"
  by (simp add: ReceiveBlob_def ioCopy_def stalls_def exampleStore_def exampleSource_def
        uploadToReplica_def wrappedReplicas_def MaybeWrapContext_def goodBackend_def
        zeroSizedBlobRef_def)

subsection \<open>RemoveBlobs\<close>

text \<open>
  The loop of \<^verbatim>\<open>RemoveBlobs\<close> never ends: it ranges over a channel that nobody
  closes. So \<^verbatim>\<open>RemoveBlobs\<close> returns for no store, no list of references and no
  order of arrival.
\<close>

lemma removeLoop_blocks: "removeLoop errch reterr nSucc = None"
  by (induction errch reterr nSucc rule: removeLoop.induct) simp_all

lemma RemoveBlobs_blocks: "RemoveBlobs sto blobs order = None"
  by (simp add: RemoveBlobs_def removeLoop_blocks)

text \<open>
  Claim C2 says that \<^verbatim>\<open>RemoveBlobs\<close> returns \<^verbatim>\<open>nil\<close> when a backend reported
  success. With two backends, the first removing the blob and the second failing, the
  call does not return.
\<close>

theorem RemoveBlobs_never_returns:
  "RemoveBlobs (exampleStore [goodBackend, downBackend] 2) [''sha1-a''] [0, 1] = None"
  by (simp add: RemoveBlobs_def exampleStore_def goodBackend_def downBackend_def
        MaybeWrapContext_def)

subsection \<open>Construction\<close>

lemma loadReplicas_length: "loadReplicas ld ps = Inr rs \<Longrightarrow> length rs = length ps"
  by (induction ps arbitrary: rs) (auto split: sum.splits)

lemma loadReplicas_nth:
  "loadReplicas ld ps = Inr rs \<Longrightarrow> i < length ps \<Longrightarrow> ld (ps ! i) = Inr (rs ! i)"
proof (induction ps arbitrary: rs i)
  case Nil
  then show ?case by simp
next
  case (Cons p ps)
  then show ?case
    by (cases i) (auto split: sum.splits)
qed

text \<open>
  Claim C3, amended. A configuration that construction accepts validates and names at
  least one backend, and the store has one backend for each prefix, resolved by the
  loader, and no request. Its \<^verbatim>\<open>minWritesForSuccess\<close> is not zero: it is the number
  of backends when the configured value is unset or zero, and the configured value
  otherwise. So \<open>1 \<le> minWritesForSuccess \<le> N\<close> holds when the configured value is
  unset, zero or between 1 and the number of backends. Construction fails, with the
  error of the validation, when the configuration does not validate (the backends are
  missing, or a key is not known); it fails when no backend is configured; it fails,
  with the loader's error, when a backend does not resolve; and in every other case it
  succeeds.
\<close>

theorem newFromConfig_quorum:
  "(\<forall>h' p. newFromConfig h ld c = Inr (h', p) \<longrightarrow>
      (\<exists>s prefixes. cfgBackends c = Some prefixes \<and> stores h' p = Some s \<and>
         replicaPrefixes s = prefixes \<and> loadReplicas ld prefixes = Inr (replicas s) \<and>
         length (replicas s) = length prefixes \<and> 1 \<le> length (replicas s) \<and>
         ctx s = None \<and>
         minWritesForSuccess s =
           (case cfgMinWrites c of
              None \<Rightarrow> int (length prefixes)
            | Some v \<Rightarrow> if v = 0 then int (length prefixes) else v) \<and>
         minWritesForSuccess s \<noteq> 0 \<and>
         ((case cfgMinWrites c of None \<Rightarrow> True | Some v \<Rightarrow> 0 \<le> v \<and> v \<le> int (length prefixes)) \<longrightarrow>
          1 \<le> minWritesForSuccess s \<and> minWritesForSuccess s \<le> int (length (replicas s))))) \<and>
   (\<forall>h' p. newFromConfig h ld c = Inr (h', p) \<longrightarrow>
      Validate c = None \<and> cfgUnknownKeys c = []) \<and>
   (\<forall>e. Validate c = Some e \<longrightarrow> newFromConfig h ld c = Inl e) \<and>
   (cfgBackends c = None \<or> cfgUnknownKeys c \<noteq> [] \<longrightarrow> Validate c \<noteq> None) \<and>
   (RequiredList c = [] \<longrightarrow> (\<exists>e. newFromConfig h ld c = Inl e)) \<and>
   (Validate c = None \<and> RequiredList c = [] \<longrightarrow> newFromConfig h ld c = Inl NeedReplica) \<and>
   (\<forall>e. Validate c = None \<and> RequiredList c \<noteq> [] \<and>
        loadReplicas ld (RequiredList c) = Inl e \<longrightarrow>
        newFromConfig h ld c = Inl e) \<and>
   (\<forall>rs. Validate c = None \<and> RequiredList c \<noteq> [] \<and>
         loadReplicas ld (RequiredList c) = Inr rs \<longrightarrow>
         (\<exists>h'. newFromConfig h ld c = Inr (h', Suc (nextAddr h))))"
proof (intro conjI allI impI)
  fix h' p
  assume ok: "newFromConfig h ld c = Inr (h', p)"
  then obtain prefixes where pre: "cfgBackends c = Some prefixes"
    by (cases "cfgBackends c") (auto simp: newFromConfig_def Validate_def Let_def)
  from ok pre have ne: "prefixes \<noteq> []"
    by (auto simp: newFromConfig_def RequiredList_def Let_def split: option.splits if_splits)
  from ok pre ne obtain rs where rs: "loadReplicas ld prefixes = Inr rs"
    by (auto simp: newFromConfig_def RequiredList_def Let_def
             split: option.splits if_splits sum.splits)
  define q where "q = (case cfgMinWrites c of
              None \<Rightarrow> int (length prefixes)
            | Some v \<Rightarrow> if v = 0 then int (length prefixes) else v)"
  define s where "s = \<lparr>hub = nextAddr h, replicaPrefixes = prefixes, replicas = rs,
                        minWritesForSuccess = q, ctx = None\<rparr>"
  have "stores h' p = Some s"
    using ok pre ne rs
    by (auto simp: newFromConfig_def RequiredList_def OptionalInt_def Let_def s_def q_def
             split: option.splits if_splits)
  moreover have "length rs = length prefixes"
    by (rule loadReplicas_length [OF rs])
  moreover have "q \<noteq> 0"
    using ne by (auto simp: q_def split: option.splits)
  moreover have "(case cfgMinWrites c of None \<Rightarrow> True | Some v \<Rightarrow> 0 \<le> v \<and> v \<le> int (length prefixes)) \<Longrightarrow>
      1 \<le> q \<and> q \<le> int (length prefixes)"
    using ne by (auto simp: q_def Suc_le_eq split: option.splits)
  ultimately show "\<exists>s prefixes. cfgBackends c = Some prefixes \<and> stores h' p = Some s \<and>
         replicaPrefixes s = prefixes \<and> loadReplicas ld prefixes = Inr (replicas s) \<and>
         length (replicas s) = length prefixes \<and> 1 \<le> length (replicas s) \<and>
         ctx s = None \<and>
         minWritesForSuccess s =
           (case cfgMinWrites c of
              None \<Rightarrow> int (length prefixes)
            | Some v \<Rightarrow> if v = 0 then int (length prefixes) else v) \<and>
         minWritesForSuccess s \<noteq> 0 \<and>
         ((case cfgMinWrites c of None \<Rightarrow> True | Some v \<Rightarrow> 0 \<le> v \<and> v \<le> int (length prefixes)) \<longrightarrow>
          1 \<le> minWritesForSuccess s \<and> minWritesForSuccess s \<le> int (length (replicas s)))"
    using pre rs ne
    by (intro exI [of _ s] exI [of _ prefixes]) (auto simp: s_def q_def Suc_le_eq)
next
  fix h' p
  assume ok: "newFromConfig h ld c = Inr (h', p)"
  then show "Validate c = None"
    by (auto simp: newFromConfig_def Let_def split: option.splits)
  then show "cfgUnknownKeys c = []"
    by (auto simp: Validate_def split: if_splits)
next
  fix e
  assume "Validate c = Some e"
  then show "newFromConfig h ld c = Inl e"
    by (simp add: newFromConfig_def Let_def)
next
  assume "cfgBackends c = None \<or> cfgUnknownKeys c \<noteq> []"
  then show "Validate c \<noteq> None"
    by (auto simp: Validate_def)
next
  assume "RequiredList c = []"
  then show "\<exists>e. newFromConfig h ld c = Inl e"
    by (auto simp: newFromConfig_def Let_def split: option.splits)
next
  assume "Validate c = None \<and> RequiredList c = []"
  then show "newFromConfig h ld c = Inl NeedReplica"
    by (auto simp: newFromConfig_def Let_def)
next
  fix e
  assume "Validate c = None \<and> RequiredList c \<noteq> [] \<and>
        loadReplicas ld (RequiredList c) = Inl e"
  then show "newFromConfig h ld c = Inl e"
    by (simp add: newFromConfig_def Let_def)
next
  fix rs
  assume "Validate c = None \<and> RequiredList c \<noteq> [] \<and>
         loadReplicas ld (RequiredList c) = Inr rs"
  then show "\<exists>h'. newFromConfig h ld c = Inr (h', Suc (nextAddr h))"
    by (simp add: newFromConfig_def Let_def)
qed

theorem newFromConfig_quorum_witness:
  "newFromConfig emptyHeap exampleLoader goodConfig =
     Inr (\<lparr>stores = [1 \<mapsto> \<lparr>hub = 0, replicaPrefixes = [''/good/'', ''/down/''],
                            replicas = [goodBackend, downBackend],
                            minWritesForSuccess = 2, ctx = None\<rparr>],
            nextAddr = 2\<rparr>, 1) \<and>
   cfgMinWrites goodConfig = Some 0 \<and>
   RequiredList noBackendsConfig = [] \<and> Validate noBackendsConfig = None \<and>
   newFromConfig emptyHeap exampleLoader noBackendsConfig = Inl NeedReplica \<and>
   Validate unknownKeyConfig = Some (ConfigError ''bogus'') \<and>
   newFromConfig emptyHeap exampleLoader unknownKeyConfig = Inl (ConfigError ''bogus'') \<and>
   Validate unresolvedConfig = None \<and>
   loadReplicas exampleLoader (RequiredList unresolvedConfig) = Inl (Err ''no such prefix'') \<and>
   newFromConfig emptyHeap exampleLoader unresolvedConfig = Inl (Err ''no such prefix'')"
proof -
  have r: "newFromConfig emptyHeap exampleLoader goodConfig =
     Inr (\<lparr>stores = [1 \<mapsto> \<lparr>hub = 0, replicaPrefixes = [''/good/'', ''/down/''],
                            replicas = [goodBackend, downBackend],
                            minWritesForSuccess = 2, ctx = None\<rparr>],
            nextAddr = 2\<rparr>, 1)"
    by (simp add: newFromConfig_def Let_def goodConfig_def emptyHeap_def exampleLoader_def
          RequiredList_def OptionalInt_def Validate_def)
  have c: "cfgMinWrites goodConfig = Some 0"
    by (simp add: goodConfig_def)
  have e: "RequiredList noBackendsConfig = []" and v: "Validate noBackendsConfig = None"
    by (simp_all add: noBackendsConfig_def RequiredList_def Validate_def)
  note inst = newFromConfig_quorum [of emptyHeap exampleLoader]
  have n: "newFromConfig emptyHeap exampleLoader noBackendsConfig = Inl NeedReplica"
    using inst [of noBackendsConfig] e v by blast
  have vu: "Validate unknownKeyConfig = Some (ConfigError ''bogus'')"
    by (simp add: unknownKeyConfig_def Validate_def)
  have u: "newFromConfig emptyHeap exampleLoader unknownKeyConfig = Inl (ConfigError ''bogus'')"
    using inst [of unknownKeyConfig] vu by blast
  have vr: "Validate unresolvedConfig = None"
    by (simp add: unresolvedConfig_def Validate_def)
  have lr: "loadReplicas exampleLoader (RequiredList unresolvedConfig) =
      Inl (Err ''no such prefix'')"
    by (simp add: unresolvedConfig_def RequiredList_def exampleLoader_def)
  have nr: "RequiredList unresolvedConfig \<noteq> []"
    by (simp add: unresolvedConfig_def RequiredList_def)
  have x: "newFromConfig emptyHeap exampleLoader unresolvedConfig =
      Inl (Err ''no such prefix'')"
    using inst [of unresolvedConfig] vr lr nr by blast
  show ?thesis
    using inst [of goodConfig]
    by (intro conjI r c e v n vu u vr lr x)
qed

text \<open>
  Claim C3 as stated fails: a configured \<^verbatim>\<open>minWritesForSuccess\<close> of 2 with one
  backend is accepted, and the store keeps the value 2.
\<close>

theorem newFromConfig_accepts_excess_quorum:
  "newFromConfig emptyHeap exampleLoader overConfig =
     Inr (\<lparr>stores = [1 \<mapsto> \<lparr>hub = 0, replicaPrefixes = [''/good/''],
                            replicas = [goodBackend],
                            minWritesForSuccess = 2, ctx = None\<rparr>],
            nextAddr = 2\<rparr>, 1)"
  by (simp add: newFromConfig_def Let_def overConfig_def emptyHeap_def exampleLoader_def
        RequiredList_def OptionalInt_def Validate_def)

subsection \<open>StatBlobs\<close>

lemma dom_fold_need:
  "dom (fold (\<lambda>br need. need(br \<mapsto> br)) blobs m) = dom m \<union> set blobs"
  by (induction blobs arbitrary: m) auto

lemma dom_needOf: "dom (needOf blobs) = set blobs"
  by (simp add: needOf_def dom_fold_need)

lemma funnel_spec:
  "funnel need ch = (dest, need') \<Longrightarrow>
   dom need' = dom need - BlobRef ` set ch \<and>
   set dest \<subseteq> set ch \<and>
   BlobRef ` set dest = dom need \<inter> BlobRef ` set ch \<and>
   distinct (map BlobRef dest) \<and>
   (\<forall>s\<in>set dest. find (\<lambda>x. BlobRef x = BlobRef s) ch = Some s)"
proof (induction ch arbitrary: need dest need')
  case Nil
  then show ?case by simp
next
  case (Cons x ch)
  show ?case
  proof (cases "need (BlobRef x)")
    case None
    then have eq: "funnel need ch = (dest, need')"
      using Cons.prems by simp
    note IH = Cons.IH [OF eq]
    have nk: "BlobRef x \<notin> dom need"
      using None by auto
    have 1: "dom need' = dom need - BlobRef ` set (x # ch)"
      using IH nk by auto
    have 2: "set dest \<subseteq> set (x # ch)"
      using IH by auto
    have 3: "BlobRef ` set dest = dom need \<inter> BlobRef ` set (x # ch)"
      using IH nk by auto
    have 4: "distinct (map BlobRef dest)"
      using IH by simp
    have 5: "find (\<lambda>y. BlobRef y = BlobRef s) (x # ch) = Some s" if "s \<in> set dest" for s
    proof -
      have "BlobRef s \<in> dom need" using IH that by blast
      with nk have "BlobRef x \<noteq> BlobRef s" by auto
      with IH that show ?thesis by simp
    qed
    from 1 2 3 4 5 show ?thesis by blast
  next
    case (Some v)
    obtain d where eq: "funnel (need(BlobRef x := None)) ch = (d, need')"
      and dest: "dest = x # d"
      using Cons.prems Some by (auto simp: Let_def split: prod.splits)
    note IH = Cons.IH [OF eq]
    note i1 = IH [THEN conjunct1]
    note i2 = IH [THEN conjunct2, THEN conjunct1]
    note i3 = IH [THEN conjunct2, THEN conjunct2, THEN conjunct1]
    note i4 = IH [THEN conjunct2, THEN conjunct2, THEN conjunct2, THEN conjunct1]
    note i5 = IH [THEN conjunct2, THEN conjunct2, THEN conjunct2, THEN conjunct2]
    have k: "BlobRef x \<in> dom need"
      using Some by auto
    have dm: "dom (need(BlobRef x := None)) = dom need - {BlobRef x}"
      by simp
    have "dom need' = (dom need - {BlobRef x}) - BlobRef ` set ch"
      using i1 unfolding dm .
    then have 1: "dom need' = dom need - BlobRef ` set (x # ch)"
      by auto
    have 2: "set dest \<subseteq> set (x # ch)"
      using i2 dest by auto
    have d3: "BlobRef ` set d = (dom need - {BlobRef x}) \<inter> BlobRef ` set ch"
      using i3 unfolding dm .
    have 3: "BlobRef ` set dest = dom need \<inter> BlobRef ` set (x # ch)"
      using d3 k dest by auto
    have "BlobRef x \<notin> BlobRef ` set d"
      using d3 by blast
    then have 4: "distinct (map BlobRef dest)"
      using i4 dest by simp
    have 5: "find (\<lambda>y. BlobRef y = BlobRef s) (x # ch) = Some s" if "s \<in> set dest" for s
    proof (cases "s = x")
      case True
      then show ?thesis by simp
    next
      case False
      with that dest have mem: "s \<in> set d" by simp
      then have "BlobRef s \<in> BlobRef ` set d" by blast
      with d3 have "BlobRef x \<noteq> BlobRef s" by auto
      moreover have "find (\<lambda>y. BlobRef y = BlobRef s) ch = Some s"
        using i5 mem by (rule bspec)
      ultimately show ?thesis by simp
    qed
    from 1 2 3 4 5 show ?thesis by blast
  qed
qed

lemma mset_concat_update:
  assumes "i < length qs" and "qs ! i = x # q"
  shows "mset (concat qs) = add_mset x (mset (concat (qs[i := q])))"
proof -
  have "take i qs @ (x # q) # drop (Suc i) qs = qs"
    using id_take_nth_drop [OF assms(1), symmetric] by (simp add: assms(2))
  then have "concat qs = concat (take i qs @ (x # q) # drop (Suc i) qs)"
    by simp
  then have "concat qs = concat (take i qs) @ (x # q) @ concat (drop (Suc i) qs)"
    by (simp only: concat_append concat.simps)
  moreover have "concat (qs[i := q]) = concat (take i qs) @ q @ concat (drop (Suc i) qs)"
    using assms(1) by (simp add: upd_conv_take_nth_drop)
  ultimately show ?thesis by simp
qed

lemma mset_interleave: "mset (interleave sched qs) = mset (concat qs)"
proof (induction sched arbitrary: qs)
  case Nil
  then show ?case by simp
next
  case (Cons i sched)
  show ?case
  proof (cases "i < length qs")
    case False
    with Cons.IH show ?thesis by simp
  next
    case True
    show ?thesis
    proof (cases "qs ! i")
      case Nil
      with True Cons.IH show ?thesis by simp
    next
      case (Cons x q)
      with True Cons.IH [of "qs[i := q]"] mset_concat_update [OF True Cons]
      show ?thesis by simp
    qed
  qed
qed

lemma statErrLoop_returns:
  "length es = n \<Longrightarrow>
   statErrLoop n es e0 =
     Some (case filter (\<lambda>e. e \<noteq> None) es of [] \<Rightarrow> e0 | e # fs \<Rightarrow> last (e # fs))"
proof (induction es arbitrary: n e0)
  case Nil
  then show ?case by simp
next
  case (Cons x es)
  then obtain m where n: "n = Suc m" and m: "length es = m"
    by (cases n) auto
  from Cons.IH [OF m] show ?case
    by (auto simp: n split: list.splits)
qed

lemma StatBlobs_unfold:
  assumes "mset eorder = mset [0..<length (replicas sto)]"
  shows "StatBlobs sto blobs wait sched eorder =
     Some (fst (funnel (needOf blobs) (statStream sto blobs wait sched)),
           if set blobs \<subseteq> reportedRefs sto blobs wait then None
           else lastRecorded (statErrors sto blobs wait eorder))"
proof -
  have len: "length (statErrors sto blobs wait eorder) = length (replicas sto)"
    using mset_eq_length [OF assms] by (simp add: statErrors_def)
  have "set (statStream sto blobs wait sched) =
        set (concat (map fst (statReplies sto blobs wait)))"
    unfolding statStream_def by (rule mset_eq_setD [OF mset_interleave])
  moreover obtain dest need' where
    f: "funnel (needOf blobs) (statStream sto blobs wait sched) = (dest, need')"
    by (cases "funnel (needOf blobs) (statStream sto blobs wait sched)")
  ultimately have "dom need' = set blobs - reportedRefs sto blobs wait"
    using funnel_spec [OF f] by (simp add: dom_needOf reportedRefs_def)
  then have empty: "dom need' = {} \<longleftrightarrow> set blobs \<subseteq> reportedRefs sto blobs wait"
    by auto
  have "statErrLoop (length (replicas sto)) (statErrors sto blobs wait eorder) None =
        Some (lastRecorded (statErrors sto blobs wait eorder))"
    using statErrLoop_returns [OF len, of None] by (simp add: lastRecorded_def)
  with empty f show ?thesis
    by (simp add: StatBlobs_def Let_def del: dom_eq_empty_conv)
qed

lemma lastRecorded_None: "lastRecorded es = None \<longleftrightarrow> (\<forall>e\<in>set es. e = None)"
proof (cases "filter (\<lambda>e. e \<noteq> None) es")
  case Nil
  then have "\<forall>e\<in>set es. e = None"
    by (simp add: filter_empty_conv)
  with Nil show ?thesis by (simp add: lastRecorded_def)
next
  case (Cons e fs)
  have "last (e # fs) \<in> set (filter (\<lambda>e. e \<noteq> None) es)"
    unfolding Cons by (rule last_in_set) simp
  then have "last (e # fs) \<noteq> None" "last (e # fs) \<in> set es"
    by simp_all
  with Cons show ?thesis
    by (auto simp: lastRecorded_def)
qed

text \<open>
  Claim C5. When every backend returns, \<^verbatim>\<open>StatBlobs\<close> returns, and what it has sent
  to the destination is this: every Sized Blob Reference sent was reported by a
  backend and its reference was requested; no reference is sent twice; each one sent is
  the first with its reference in the order of arrival, so the first backend to report
  a reference wins and later reports are dropped; and the references sent are exactly
  the requested references that some backend reported.
\<close>

theorem StatBlobs_forwards_first:
  assumes "mset eorder = mset [0..<length (replicas sto)]"
  shows "\<exists>dest e. StatBlobs sto blobs wait sched eorder = Some (dest, e) \<and>
     (\<forall>s\<in>set dest. BlobRef s \<in> set blobs \<and>
                    s \<in> set (concat (map fst (statReplies sto blobs wait)))) \<and>
     distinct (map BlobRef dest) \<and>
     (\<forall>s\<in>set dest. find (\<lambda>x. BlobRef x = BlobRef s) (statStream sto blobs wait sched) = Some s) \<and>
     BlobRef ` set dest = set blobs \<inter> reportedRefs sto blobs wait"
proof -
  obtain dest need' where
    f: "funnel (needOf blobs) (statStream sto blobs wait sched) = (dest, need')"
    by (cases "funnel (needOf blobs) (statStream sto blobs wait sched)")
  note sp = funnel_spec [OF f]
  have st: "set (statStream sto blobs wait sched) =
        set (concat (map fst (statReplies sto blobs wait)))"
    unfolding statStream_def by (rule mset_eq_setD [OF mset_interleave])
  have 1: "set dest \<subseteq> set (concat (map fst (statReplies sto blobs wait)))"
    using sp [THEN conjunct2, THEN conjunct1] unfolding st .
  have 2: "BlobRef ` set dest = set blobs \<inter> reportedRefs sto blobs wait"
    using sp [THEN conjunct2, THEN conjunct2, THEN conjunct1]
    unfolding st dom_needOf reportedRefs_def .
  have 3: "distinct (map BlobRef dest)"
    using sp by blast
  have 4: "\<forall>s\<in>set dest. find (\<lambda>x. BlobRef x = BlobRef s) (statStream sto blobs wait sched) = Some s"
    using sp by blast
  have 5: "\<forall>s\<in>set dest. BlobRef s \<in> set blobs \<and>
                    s \<in> set (concat (map fst (statReplies sto blobs wait)))"
    using 1 2 by blast
  have "StatBlobs sto blobs wait sched eorder =
     Some (dest, if set blobs \<subseteq> reportedRefs sto blobs wait then None
                 else lastRecorded (statErrors sto blobs wait eorder))"
    using StatBlobs_unfold [OF assms, of blobs wait sched] f by simp
  with 2 3 4 5 show ?thesis by blast
qed

theorem StatBlobs_forwards_first_witness:
  "mset [1, 0] = mset [0..<length (replicas statStore)] \<and>
   statStream statStore [''sha1-a'', ''sha1-b''] 0 [1, 1, 0] =
     [\<lparr>BlobRef = ''sha1-extra'', Size = 9\<rparr>, \<lparr>BlobRef = ''sha1-a'', Size = 4\<rparr>,
      \<lparr>BlobRef = ''sha1-a'', Size = 3\<rparr>, \<lparr>BlobRef = ''sha1-b'', Size = 3\<rparr>,
      \<lparr>BlobRef = ''sha1-b'', Size = 4\<rparr>] \<and>
   StatBlobs statStore [''sha1-a'', ''sha1-b''] 0 [1, 1, 0] [1, 0] =
     Some ([\<lparr>BlobRef = ''sha1-a'', Size = 4\<rparr>, \<lparr>BlobRef = ''sha1-b'', Size = 3\<rparr>], None)"
proof -
  have perm: "mset [1, 0] = mset [0..<length (replicas statStore)]"
    by (simp add: statStore_def exampleStore_def upt_rec)
  have replies: "map fst (statReplies statStore [''sha1-a'', ''sha1-b''] 0) =
     [[\<lparr>BlobRef = ''sha1-a'', Size = 3\<rparr>, \<lparr>BlobRef = ''sha1-b'', Size = 3\<rparr>],
      [\<lparr>BlobRef = ''sha1-extra'', Size = 9\<rparr>, \<lparr>BlobRef = ''sha1-a'', Size = 4\<rparr>,
       \<lparr>BlobRef = ''sha1-b'', Size = 4\<rparr>]]"
    by (simp add: statReplies_def statStore_def exampleStore_def wrappedReplicas_def
          goodBackend_def mirrorBackend_def)
  have stream: "statStream statStore [''sha1-a'', ''sha1-b''] 0 [1, 1, 0] =
     [\<lparr>BlobRef = ''sha1-extra'', Size = 9\<rparr>, \<lparr>BlobRef = ''sha1-a'', Size = 4\<rparr>,
      \<lparr>BlobRef = ''sha1-a'', Size = 3\<rparr>, \<lparr>BlobRef = ''sha1-b'', Size = 3\<rparr>,
      \<lparr>BlobRef = ''sha1-b'', Size = 4\<rparr>]"
    by (simp add: statStream_def replies)
  have r: "StatBlobs statStore [''sha1-a'', ''sha1-b''] 0 [1, 1, 0] [1, 0] =
     Some ([\<lparr>BlobRef = ''sha1-a'', Size = 4\<rparr>, \<lparr>BlobRef = ''sha1-b'', Size = 3\<rparr>], None)"
    unfolding StatBlobs_def Let_def stream
    by (simp add: needOf_def statErrors_def statReplies_def statStore_def exampleStore_def
          wrappedReplicas_def goodBackend_def mirrorBackend_def)
  show ?thesis
    using StatBlobs_forwards_first [OF perm, of "[''sha1-a'', ''sha1-b'']" 0 "[1, 1, 0]"]
    by (intro conjI perm stream r)
qed

text \<open>
  Claim C6, amended. When every backend returns, \<^verbatim>\<open>StatBlobs\<close> returns \<^verbatim>\<open>nil\<close>
  if every requested reference was reported by some backend, whatever errors the
  backends returned; otherwise it returns the last error that a backend returned, which
  is \<^verbatim>\<open>nil\<close> exactly when no backend returned an error.
\<close>

theorem StatBlobs_result:
  assumes "mset eorder = mset [0..<length (replicas sto)]"
  shows "(\<exists>dest. StatBlobs sto blobs wait sched eorder =
            Some (dest, if set blobs \<subseteq> reportedRefs sto blobs wait then None
                        else lastRecorded (statErrors sto blobs wait eorder))) \<and>
         (lastRecorded (statErrors sto blobs wait eorder) = None \<longleftrightarrow>
            (\<forall>i<length (replicas sto). snd (statReplies sto blobs wait ! i) = None))"
proof
  show "\<exists>dest. StatBlobs sto blobs wait sched eorder =
            Some (dest, if set blobs \<subseteq> reportedRefs sto blobs wait then None
                        else lastRecorded (statErrors sto blobs wait eorder))"
    using StatBlobs_unfold [OF assms, of blobs wait sched] by blast
next
  have "set eorder = {0..<length (replicas sto)}"
    using mset_eq_setD [OF assms] by simp
  then show "lastRecorded (statErrors sto blobs wait eorder) = None \<longleftrightarrow>
            (\<forall>i<length (replicas sto). snd (statReplies sto blobs wait ! i) = None)"
    by (auto simp: lastRecorded_None statErrors_def)
qed

theorem StatBlobs_result_witness:
  "mset [0, 1] = mset [0..<length (replicas (exampleStore [downBackend, goodBackend] 1))] \<and>
   StatBlobs (exampleStore [downBackend, goodBackend] 1) [''sha1-a''] 0 [] [0, 1] =
     Some ([\<lparr>BlobRef = ''sha1-a'', Size = 3\<rparr>], None) \<and>
   mset [0, 1] = mset [0..<length (replicas (exampleStore [downBackend, emptyBackend] 1))] \<and>
   StatBlobs (exampleStore [downBackend, emptyBackend] 1) [''sha1-a''] 0 [] [0, 1] =
     Some ([], Some (Err ''down''))"
proof -
  have p1: "mset [0, 1] = mset [0..<length (replicas (exampleStore [downBackend, goodBackend] 1))]"
    by (simp add: exampleStore_def upt_rec)
  have p2: "mset [0, 1] = mset [0..<length (replicas (exampleStore [downBackend, emptyBackend] 1))]"
    by (simp add: exampleStore_def upt_rec)
  have r1: "StatBlobs (exampleStore [downBackend, goodBackend] 1) [''sha1-a''] 0 [] [0, 1] =
     Some ([\<lparr>BlobRef = ''sha1-a'', Size = 3\<rparr>], None)"
    by (simp add: StatBlobs_def Let_def needOf_def statStream_def statErrors_def
          statReplies_def exampleStore_def wrappedReplicas_def goodBackend_def
          downBackend_def)
  have r2: "StatBlobs (exampleStore [downBackend, emptyBackend] 1) [''sha1-a''] 0 [] [0, 1] =
     Some ([], Some (Err ''down''))"
    by (simp add: StatBlobs_def Let_def needOf_def statStream_def statErrors_def
          statReplies_def exampleStore_def wrappedReplicas_def emptyBackend_def
          downBackend_def)
  show ?thesis
    using StatBlobs_result [OF p1, of "[''sha1-a'']" 0 "[]"]
      StatBlobs_result [OF p2, of "[''sha1-a'']" 0 "[]"]
    by (intro conjI p1 p2 r1 r2)
qed

text \<open>
  Claim C6 as stated fails: a backend that does not hold the blob reports nothing and
  returns no error, and \<^verbatim>\<open>StatBlobs\<close> returns \<^verbatim>\<open>nil\<close> although the requested
  reference was reported by no backend.
\<close>

theorem StatBlobs_nil_though_missing:
  "StatBlobs (exampleStore [emptyBackend] 1) [''sha1-a''] 0 [] [0] = Some ([], None) \<and>
   ''sha1-a'' \<notin> reportedRefs (exampleStore [emptyBackend] 1) [''sha1-a''] 0"
  by (simp add: StatBlobs_def Let_def needOf_def statStream_def statErrors_def
        reportedRefs_def statReplies_def exampleStore_def wrappedReplicas_def
        emptyBackend_def)

end
